theory Spec2Isabelle
  imports Complex_Main "HOL-Library.Sublist"
begin

section \<open>Python values, errors and strings\<close>

text \<open>
  The helpers of \<^verbatim>\<open>bert_helpers.py\<close> are embedded as HOL functions. A Python exception is
  a value: a function that can raise returns a sum, \<open>Inl\<close> carrying the exception (and, for
  the stateful functions, the state reached when it was raised). Python floats are
  idealised as reals, so rounding and NaN are outside the model.
\<close>

datatype py_error =
    ZeroDivisionError
  | IndexError
  | TypeError
  | ValueError
  | AxisError
  | FileNotFoundError
  | UnpicklingError

definition newline :: char where
  "newline = CHR 0x0A"

definition digit_char :: "nat \<Rightarrow> char" where
  "digit_char d = char_of (48 + d)"

text \<open>\<^verbatim>\<open>str(n)\<close> for a non-negative integer: its decimal digits.\<close>

fun str_nat :: "nat \<Rightarrow> string" where
  "str_nat n = (if n < 10 then [digit_char n] else str_nat (n div 10) @ [digit_char (n mod 10)])"

declare str_nat.simps [simp del]

section \<open>Library functions the helpers call\<close>

text \<open>
  \<^verbatim>\<open>np.argmin\<close> and \<^verbatim>\<open>np.argmax\<close> scan the array once and keep the index of the
  best element seen so far; a later element replaces it only when it is strictly better,
  so the first occurrence of the optimum is returned. Both raise ValueError on an empty
  sequence.
\<close>

primrec argmin_scan :: "nat \<Rightarrow> 'a::linorder \<Rightarrow> nat \<Rightarrow> 'a list \<Rightarrow> nat" where
  "argmin_scan bi bv i [] = bi"
| "argmin_scan bi bv i (x # xs) =
     (if x < bv then argmin_scan i x (Suc i) xs else argmin_scan bi bv (Suc i) xs)"

definition np_argmin :: "'a::linorder list \<Rightarrow> py_error + nat" where
  "np_argmin xs = (case xs of [] \<Rightarrow> Inl ValueError | x # ys \<Rightarrow> Inr (argmin_scan 0 x 1 ys))"

primrec argmax_scan :: "nat \<Rightarrow> 'a::linorder \<Rightarrow> nat \<Rightarrow> 'a list \<Rightarrow> nat" where
  "argmax_scan bi bv i [] = bi"
| "argmax_scan bi bv i (x # xs) =
     (if bv < x then argmax_scan i x (Suc i) xs else argmax_scan bi bv (Suc i) xs)"

definition np_argmax :: "'a::linorder list \<Rightarrow> py_error + nat" where
  "np_argmax xs = (case xs of [] \<Rightarrow> Inl ValueError | x # ys \<Rightarrow> Inr (argmax_scan 0 x 1 ys))"

text \<open>
  \<^verbatim>\<open>np.argmax(logits, axis=1)\<close> on a batch of logits. Both model factories fix
  \<^verbatim>\<open>num_labels=3\<close>, so a row of logits is a triple and its arg-max is 0, 1 or 2.
\<close>

definition argmax_row :: "real \<times> real \<times> real \<Rightarrow> int" where
  "argmax_row l = (case l of (a, b, c) \<Rightarrow> int (argmax_scan 0 a 1 [b, c]))"

text \<open>
  \<^verbatim>\<open>sklearn.metrics.accuracy_score(y_true, y_pred)\<close>: the fraction of positions where the
  two arrays agree; ValueError when their lengths differ. For two empty arrays sklearn
  returns NaN, which the reals do not have: the model raises ValueError there too (a data
  loader yields no empty batch).
\<close>

definition accuracy_score :: "int list \<Rightarrow> int list \<Rightarrow> py_error + real" where
  "accuracy_score y_true y_pred =
     (if length y_true \<noteq> length y_pred \<or> y_true = [] then Inl ValueError
      else Inr (real (length (filter (\<lambda>(t, p). t = p) (zip y_true y_pred)))
                / real (length y_true)))"

text \<open>
  \<^verbatim>\<open>scipy.stats.mode\<close> of one column: the distinct values in increasing order, their
  counts, and the first value whose count is maximal, so the smallest of the most
  frequent values.
\<close>

definition stats_mode :: "int list \<Rightarrow> py_error + int" where
  "stats_mode xs =
     (let vals = sort (remdups xs);
          counts = map (\<lambda>v. count_list xs v) vals
      in case np_argmax counts of Inl e \<Rightarrow> Inl e | Inr k \<Rightarrow> Inr (vals ! k))"

text \<open>Applying a function that can raise to every element, stopping at the first error.\<close>

fun try_map :: "('a \<Rightarrow> py_error + 'b) \<Rightarrow> 'a list \<Rightarrow> py_error + 'b list" where
  "try_map f [] = Inr []"
| "try_map f (x # xs) =
     (case f x of
        Inl e \<Rightarrow> Inl e
      | Inr y \<Rightarrow> (case try_map f xs of Inl e \<Rightarrow> Inl e | Inr ys \<Rightarrow> Inr (y # ys)))"

text \<open>
  A numpy index into an axis of length \<open>n\<close>: a negative index counts from the end, and
  an index outside \<open>-n \<dots> n-1\<close> raises IndexError.
\<close>

definition np_index :: "nat \<Rightarrow> int \<Rightarrow> py_error + nat" where
  "np_index n i =
     (if 0 \<le> i \<and> i < int n then Inr (nat i)
      else if - int n \<le> i \<and> i < 0 then Inr (nat (int n + i))
      else Inl IndexError)"

section \<open>The confusion matrix\<close>

type_synonym matrix = "nat list list"

definition zeros :: "nat \<Rightarrow> nat \<Rightarrow> matrix" where
  "zeros r c = replicate r (replicate c 0)"

text \<open>\<^verbatim>\<open>confusion_matrix[l, p] += 1\<close>\<close>

definition increment_cell :: "matrix \<Rightarrow> int \<Rightarrow> int \<Rightarrow> py_error + matrix" where
  "increment_cell m l p =
     (case np_index (length m) l of
        Inl e \<Rightarrow> Inl e
      | Inr r \<Rightarrow>
          (case np_index (length (m ! r)) p of
             Inl e \<Rightarrow> Inl e
           | Inr c \<Rightarrow> Inr (m[r := (m ! r)[c := Suc (m ! r ! c)]])))"

text \<open>
  The loop of \<^verbatim>\<open>update_confusion_matrix\<close> runs over the indices of \<open>predictions\<close> and
  reads \<open>labels[i]\<close> at each: a shorter \<open>labels\<close> raises IndexError, a longer one is
  read only up to the length of \<open>predictions\<close>.
\<close>

fun update_confusion_matrix :: "matrix \<Rightarrow> int list \<Rightarrow> int list \<Rightarrow> py_error + matrix" where
  "update_confusion_matrix m [] labels = Inr m"
| "update_confusion_matrix m (p # ps) [] = Inl IndexError"
| "update_confusion_matrix m (p # ps) (l # ls) =
     (case increment_cell m l p of
        Inl e \<Rightarrow> Inl e
      | Inr m' \<Rightarrow> update_confusion_matrix m' ps ls)"

definition cell :: "matrix \<Rightarrow> nat \<Rightarrow> nat \<Rightarrow> nat" where
  "cell m l p = m ! l ! p"

definition square :: "nat \<Rightarrow> matrix \<Rightarrow> bool" where
  "square n m = (length m = n \<and> list_all (\<lambda>row. length row = n) m)"

definition class_index :: "nat \<Rightarrow> int \<Rightarrow> bool" where
  "class_index n i = (0 \<le> i \<and> i < int n)"

text \<open>The number of samples with true label \<open>l\<close> and predicted class \<open>p\<close>.\<close>

definition pair_count :: "int list \<Rightarrow> int list \<Rightarrow> nat \<Rightarrow> nat \<Rightarrow> nat" where
  "pair_count predictions labels l p =
     length (filter (\<lambda>(y, q). y = int l \<and> q = int p) (zip labels predictions))"

section \<open>Model, optimizer, files and the deep-learning framework\<close>

text \<open>
  A sub-module of the model, as \<^verbatim>\<open>model.modules()\<close> yields it: the name of its class
  and its \<^verbatim>\<open>training\<close> flag.
\<close>

record module =
  class_name :: string
  training :: bool

text \<open>
  A batch of the data loader: the input tensors and the \<^verbatim>\<open>labels\<close> tensor. Moving a
  batch to the device (\<^verbatim>\<open>v.to(device)\<close>) keeps its values and is left out.
\<close>

record 'x batch =
  inputs :: 'x
  labels :: "int list"

text \<open>
  Everything the helpers read and mutate: the model (its parameters and its sub-modules),
  the optimizer object (the state its steps accumulate, and the attribute \<^verbatim>\<open>params\<close>
  that \<^verbatim>\<open>train\<close> assigns), the files by path, the random-number state that an active
  dropout layer consumes, a count of the forward passes made, and the record of the
  calls of \<^verbatim>\<open>torch.save\<close> made, each with its path and the parameters it saved.
  Directories are assumed to exist.
\<close>

record ('p, 'os, 'r) state =
  state_dict :: 'p
  modules :: "module list"
  opt_state :: 'os
  opt_params :: "'os option"
  files :: "string \<rightharpoonup> string"
  rng :: 'r
  forward_calls :: nat
  torch_saves :: "(string \<times> 'p) list"

text \<open>
  The external collaborators, taken as parameters: the working directory and path
  separator; the forward pass of the model (loss and one row of three logits per
  sample, depending on the parameters, the training flags of the modules and the random
  state); \<^verbatim>\<open>loss.backward()\<close> followed by \<^verbatim>\<open>optimizer.step()\<close>; the constructor
  \<^verbatim>\<open>torch.optim.AdamW\<close>; \<^verbatim>\<open>torch.save\<close> and \<^verbatim>\<open>torch.load\<close> on file contents; and
  \<^verbatim>\<open>str\<close> on a float.
\<close>

record ('p, 'os, 'r, 'x) framework =
  cwd :: string
  sep :: string
  forward :: "'p \<Rightarrow> module list \<Rightarrow> 'r \<Rightarrow> 'x batch \<Rightarrow> (real \<times> (real \<times> real \<times> real) list) \<times> 'r"
  backward_step :: "'os \<Rightarrow> 'p \<Rightarrow> module list \<Rightarrow> 'r \<Rightarrow> 'x batch \<Rightarrow> 'p \<times> 'os"
  adamw :: "'p \<Rightarrow> 'os"
  torch_save :: "'p \<Rightarrow> string"
  torch_load :: "string \<Rightarrow> 'p option"
  float_str :: "real \<Rightarrow> string"

text \<open>\<^verbatim>\<open>model.train()\<close> and \<^verbatim>\<open>model.eval()\<close> set the flag of every module.\<close>

definition model_train :: "('p, 'os, 'r) state \<Rightarrow> ('p, 'os, 'r) state" where
  "model_train st = st\<lparr>modules := map (\<lambda>m. m\<lparr>training := True\<rparr>) (modules st)\<rparr>"

definition model_eval :: "('p, 'os, 'r) state \<Rightarrow> ('p, 'os, 'r) state" where
  "model_eval st = st\<lparr>modules := map (\<lambda>m. m\<lparr>training := False\<rparr>) (modules st)\<rparr>"

text \<open>\<^verbatim>\<open>model(**batch)\<close>: one forward pass.\<close>

definition call_model ::
  "('p, 'os, 'r, 'x) framework \<Rightarrow> ('p, 'os, 'r) state \<Rightarrow> 'x batch
   \<Rightarrow> (real \<times> (real \<times> real \<times> real) list) \<times> ('p, 'os, 'r) state" where
  "call_model fw st b =
     (case forward fw (state_dict st) (modules st) (rng st) b of
        (out, r') \<Rightarrow> (out, st\<lparr>rng := r', forward_calls := Suc (forward_calls st)\<rparr>))"

section \<open>turn\_on\_dropout and write\_to\_file\<close>

definition turn_on_dropout :: "('p, 'os, 'r) state \<Rightarrow> ('p, 'os, 'r) state" where
  "turn_on_dropout st =
     st\<lparr>modules :=
          map (\<lambda>m. if prefix ''Dropout'' (class_name m) then m\<lparr>training := True\<rparr> else m)
            (modules st)\<rparr>"

definition file_text :: "(string \<rightharpoonup> string) \<Rightarrow> string \<Rightarrow> string" where
  "file_text fs path = (case fs path of None \<Rightarrow> [] | Some old \<Rightarrow> old)"

text \<open>Opening in mode \<^verbatim>\<open>"a"\<close> and writing: the file keeps what it had.\<close>

definition append_file :: "string \<Rightarrow> string \<Rightarrow> (string \<rightharpoonup> string) \<Rightarrow> (string \<rightharpoonup> string)" where
  "append_file path txt fs = fs(path \<mapsto> file_text fs path @ txt)"

definition write_to_file ::
  "('p, 'os, 'r, 'x) framework \<Rightarrow> string \<Rightarrow> string \<Rightarrow> string
   \<Rightarrow> ('p, 'os, 'r) state \<Rightarrow> ('p, 'os, 'r) state" where
  "write_to_file fw folder file txt st =
     (let path = folder @ sep fw @ file;
          fs1 = append_file path txt (files st);
          fs2 = (if newline \<notin> set txt then append_file path '' '' fs1 else fs1)
      in st\<lparr>files := fs2\<rparr>)"

section \<open>training\_step and validation\_step\<close>

text \<open>
  The body of the loops threads the two running sums. In \<^verbatim>\<open>training_step\<close> the batch
  accuracy is computed before \<^verbatim>\<open>loss.backward()\<close> and \<^verbatim>\<open>optimizer.step()\<close>, which
  differentiate the forward pass just made (hence the random state it started from).
\<close>

fun training_loop ::
  "('p, 'os, 'r, 'x) framework \<Rightarrow> real \<times> real \<Rightarrow> ('p, 'os, 'r) state \<Rightarrow> 'x batch list
   \<Rightarrow> py_error \<times> ('p, 'os, 'r) state + (real \<times> real) \<times> ('p, 'os, 'r) state" where
  "training_loop fw (epoch_loss, average_acc) st [] = Inr ((epoch_loss, average_acc), st)"
| "training_loop fw (epoch_loss, average_acc) st (b # bs) =
     (case call_model fw st b of
        ((loss, logits), st1) \<Rightarrow>
          (case accuracy_score (labels b) (map argmax_row logits) of
             Inl e \<Rightarrow> Inl (e, st1)
           | Inr acc \<Rightarrow>
               (case backward_step fw (opt_state st1) (state_dict st1) (modules st1) (rng st) b of
                  (p', os') \<Rightarrow>
                    training_loop fw (epoch_loss + loss, average_acc + acc)
                      (st1\<lparr>state_dict := p', opt_state := os'\<rparr>) bs)))"

definition training_step ::
  "('p, 'os, 'r, 'x) framework \<Rightarrow> 'x batch list \<Rightarrow> ('p, 'os, 'r) state
   \<Rightarrow> py_error \<times> ('p, 'os, 'r) state + (real \<times> real) \<times> ('p, 'os, 'r) state" where
  "training_step fw dataloader st =
     (case training_loop fw (0, 0) (model_train st) dataloader of
        Inl e \<Rightarrow> Inl e
      | Inr ((epoch_loss, average_acc), st') \<Rightarrow>
          if length dataloader = 0 then Inl (ZeroDivisionError, st')
          else Inr ((average_acc / real (length dataloader),
                     epoch_loss / real (length dataloader)), st'))"

fun validation_loop ::
  "('p, 'os, 'r, 'x) framework \<Rightarrow> real \<times> real \<Rightarrow> ('p, 'os, 'r) state \<Rightarrow> 'x batch list
   \<Rightarrow> py_error \<times> ('p, 'os, 'r) state + (real \<times> real) \<times> ('p, 'os, 'r) state" where
  "validation_loop fw (average_acc, epoch_loss) st [] = Inr ((average_acc, epoch_loss), st)"
| "validation_loop fw (average_acc, epoch_loss) st (b # bs) =
     (case call_model fw st b of
        ((loss, logits), st1) \<Rightarrow>
          (case accuracy_score (labels b) (map argmax_row logits) of
             Inl e \<Rightarrow> Inl (e, st1)
           | Inr acc \<Rightarrow> validation_loop fw (average_acc + acc, epoch_loss + loss) st1 bs))"

definition validation_step ::
  "('p, 'os, 'r, 'x) framework \<Rightarrow> 'x batch list \<Rightarrow> ('p, 'os, 'r) state
   \<Rightarrow> py_error \<times> ('p, 'os, 'r) state + (real \<times> real) \<times> ('p, 'os, 'r) state" where
  "validation_step fw dataloader st =
     (case validation_loop fw (0, 0) (model_eval st) dataloader of
        Inl e \<Rightarrow> Inl e
      | Inr ((average_acc, epoch_loss), st') \<Rightarrow>
          if length dataloader = 0 then Inl (ZeroDivisionError, st')
          else Inr ((average_acc / real (length dataloader),
                     epoch_loss / real (length dataloader)), st'))"

text \<open>
  The per-batch values the two loops see, in order: the accuracy and the loss of each
  batch, computed on the state the loop has reached at that batch.
\<close>

fun training_batches ::
  "('p, 'os, 'r, 'x) framework \<Rightarrow> ('p, 'os, 'r) state \<Rightarrow> 'x batch list \<Rightarrow> (real \<times> real) list" where
  "training_batches fw st [] = []"
| "training_batches fw st (b # bs) =
     (case call_model fw st b of
        ((loss, logits), st1) \<Rightarrow>
          (case accuracy_score (labels b) (map argmax_row logits) of
             Inl e \<Rightarrow> []
           | Inr acc \<Rightarrow>
               (case backward_step fw (opt_state st1) (state_dict st1) (modules st1) (rng st) b of
                  (p', os') \<Rightarrow>
                    (acc, loss) # training_batches fw (st1\<lparr>state_dict := p', opt_state := os'\<rparr>) bs)))"

fun validation_batches ::
  "('p, 'os, 'r, 'x) framework \<Rightarrow> ('p, 'os, 'r) state \<Rightarrow> 'x batch list \<Rightarrow> (real \<times> real) list" where
  "validation_batches fw st [] = []"
| "validation_batches fw st (b # bs) =
     (case call_model fw st b of
        ((loss, logits), st1) \<Rightarrow>
          (case accuracy_score (labels b) (map argmax_row logits) of
             Inl e \<Rightarrow> []
           | Inr acc \<Rightarrow> (acc, loss) # validation_batches fw st1 bs))"

section \<open>train\<close>

definition checkpoint_path :: "('p, 'os, 'r, 'x) framework \<Rightarrow> nat \<Rightarrow> string" where
  "checkpoint_path fw epoch =
     cwd fw @ sep fw @ ''saves'' @ sep fw @ ''model_early_stopping_'' @ str_nat epoch @ ''.pkl''"

definition evaluation_folder :: "('p, 'os, 'r, 'x) framework \<Rightarrow> bool \<Rightarrow> real \<Rightarrow> string" where
  "evaluation_folder fw pretrained dropout =
     (let folder = cwd fw @ sep fw @ ''evaluation_data'' @ sep fw;
          folder = folder @ (if pretrained then ''pretrained'' else ''untrained'')
      in if dropout = 0 then folder @ sep fw @ ''normal'' else folder @ sep fw @ ''dropout'')"

text \<open>The four metric logs of a run.\<close>

definition log_paths :: "('p, 'os, 'r, 'x) framework \<Rightarrow> bool \<Rightarrow> real \<Rightarrow> string list" where
  "log_paths fw pretrained dropout =
     map (\<lambda>file. evaluation_folder fw pretrained dropout @ sep fw @ file)
       [''train_accuracy.txt'', ''train_loss.txt'', ''val_accuracy.txt'', ''val_loss.txt'']"

text \<open>\<^verbatim>\<open>torch.save(model.state_dict(), path)\<close> replaces the file.\<close>

definition save_checkpoint ::
  "('p, 'os, 'r, 'x) framework \<Rightarrow> nat \<Rightarrow> ('p, 'os, 'r) state \<Rightarrow> ('p, 'os, 'r) state" where
  "save_checkpoint fw epoch st =
     st\<lparr>files := (files st)(checkpoint_path fw epoch \<mapsto> torch_save fw (state_dict st)),
        torch_saves := torch_saves st @ [(checkpoint_path fw epoch, state_dict st)]\<rparr>"

text \<open>One iteration of the epoch loop, on the list of validation losses and the state.\<close>

definition train_epoch ::
  "('p, 'os, 'r, 'x) framework \<Rightarrow> 'x batch list \<Rightarrow> 'x batch list \<Rightarrow> bool \<Rightarrow> real
   \<Rightarrow> real list \<Rightarrow> ('p, 'os, 'r) state \<Rightarrow> nat
   \<Rightarrow> py_error \<times> ('p, 'os, 'r) state + real list \<times> ('p, 'os, 'r) state" where
  "train_epoch fw train_dataloader val_dataloader pretrained dropout val_losses st epoch =
     (case training_step fw train_dataloader (save_checkpoint fw epoch st) of
        Inl e \<Rightarrow> Inl e
      | Inr ((train_acc, train_loss), st1) \<Rightarrow>
          (case validation_step fw val_dataloader st1 of
             Inl e \<Rightarrow> Inl e
           | Inr ((val_acc, val_loss), st2) \<Rightarrow>
               (let folder = evaluation_folder fw pretrained dropout;
                    st3 = write_to_file fw folder ''train_accuracy.txt'' (float_str fw train_acc) st2;
                    st4 = write_to_file fw folder ''train_loss.txt'' (float_str fw train_loss) st3;
                    st5 = write_to_file fw folder ''val_accuracy.txt'' (float_str fw val_acc) st4;
                    st6 = write_to_file fw folder ''val_loss.txt'' (float_str fw val_loss) st5
                in Inr (val_losses @ [val_loss], st6))))"

fun train_epochs ::
  "('p, 'os, 'r, 'x) framework \<Rightarrow> 'x batch list \<Rightarrow> 'x batch list \<Rightarrow> bool \<Rightarrow> real
   \<Rightarrow> real list \<Rightarrow> ('p, 'os, 'r) state \<Rightarrow> nat list
   \<Rightarrow> py_error \<times> ('p, 'os, 'r) state + real list \<times> ('p, 'os, 'r) state" where
  "train_epochs fw tdl vdl pretrained dropout val_losses st [] = Inr (val_losses, st)"
| "train_epochs fw tdl vdl pretrained dropout val_losses st (epoch # rest) =
     (case train_epoch fw tdl vdl pretrained dropout val_losses st epoch of
        Inl e \<Rightarrow> Inl e
      | Inr (val_losses', st') \<Rightarrow> train_epochs fw tdl vdl pretrained dropout val_losses' st' rest)"

text \<open>
  What the epoch loop goes through, epoch by epoch: the parameters the model has when the
  epoch starts, the parameters after its training pass (the ones its validation pass
  runs on), and the validation loss appended to the list.
\<close>

record 'p epoch_record =
  entry_params :: 'p
  trained_params :: 'p
  recorded_val_loss :: real

fun epoch_trace ::
  "('p, 'os, 'r, 'x) framework \<Rightarrow> 'x batch list \<Rightarrow> 'x batch list \<Rightarrow> bool \<Rightarrow> real
   \<Rightarrow> ('p, 'os, 'r) state \<Rightarrow> nat list \<Rightarrow> 'p epoch_record list" where
  "epoch_trace fw tdl vdl pretrained dropout st [] = []"
| "epoch_trace fw tdl vdl pretrained dropout st (epoch # rest) =
     (case training_step fw tdl (save_checkpoint fw epoch st) of
        Inl e \<Rightarrow> []
      | Inr (tr, st1) \<Rightarrow>
          (case validation_step fw vdl st1 of
             Inl e \<Rightarrow> []
           | Inr ((val_acc, val_loss), st2) \<Rightarrow>
               (case train_epoch fw tdl vdl pretrained dropout [] st epoch of
                  Inl e \<Rightarrow> []
                | Inr (vl, st') \<Rightarrow>
                    \<lparr>entry_params = state_dict st, trained_params = state_dict st1,
                     recorded_val_loss = val_loss\<rparr>
                    # epoch_trace fw tdl vdl pretrained dropout st' rest)))"

text \<open>
  What follows the epoch loop: the checkpoint named by \<^verbatim>\<open>np.argmin(val_losses)\<close> is read
  and loaded into the model, a new AdamW optimizer is constructed on the model's
  parameters and assigned to the attribute \<^verbatim>\<open>params\<close> of the optimizer that was passed
  in, and a newline is appended to each of the four logs.
\<close>

definition restore_best ::
  "('p, 'os, 'r, 'x) framework \<Rightarrow> bool \<Rightarrow> real \<Rightarrow> real list \<Rightarrow> ('p, 'os, 'r) state
   \<Rightarrow> py_error \<times> ('p, 'os, 'r) state + ('p, 'os, 'r) state" where
  "restore_best fw pretrained dropout val_losses st =
     (case np_argmin val_losses of
        Inl e \<Rightarrow> Inl (e, st)
      | Inr best \<Rightarrow>
          (case files st (checkpoint_path fw best) of
             None \<Rightarrow> Inl (FileNotFoundError, st)
           | Some bytes \<Rightarrow>
               (case torch_load fw bytes of
                  None \<Rightarrow> Inl (UnpicklingError, st)
                | Some p \<Rightarrow>
                    (let st1 = st\<lparr>state_dict := p\<rparr>;
                         st2 = st1\<lparr>opt_params := Some (adamw fw (state_dict st1))\<rparr>;
                         folder = evaluation_folder fw pretrained dropout;
                         st3 = write_to_file fw folder ''train_accuracy.txt'' [newline] st2;
                         st4 = write_to_file fw folder ''train_loss.txt'' [newline] st3;
                         st5 = write_to_file fw folder ''val_accuracy.txt'' [newline] st4;
                         st6 = write_to_file fw folder ''val_loss.txt'' [newline] st5
                     in Inr st6))))"

definition train ::
  "('p, 'os, 'r, 'x) framework \<Rightarrow> 'x batch list \<Rightarrow> 'x batch list \<Rightarrow> int \<Rightarrow> bool \<Rightarrow> real
   \<Rightarrow> ('p, 'os, 'r) state \<Rightarrow> py_error \<times> ('p, 'os, 'r) state + ('p, 'os, 'r) state" where
  "train fw train_dataloader val_dataloader epochs pretrained dropout st =
     (case train_epochs fw train_dataloader val_dataloader pretrained dropout [] st [0..<nat epochs] of
        Inl e \<Rightarrow> Inl e
      | Inr (val_losses, st') \<Rightarrow> restore_best fw pretrained dropout val_losses st')"

section \<open>evaluate\<close>

text \<open>The local variables of \<^verbatim>\<open>evaluate\<close> that its loop updates.\<close>

record eval_locals =
  confusion_matrix :: matrix
  confusion_matrix_mcd :: matrix
  average_acc :: real
  average_acc_mcd :: real

text \<open>
  \<^verbatim>\<open>[model(**batch)[1] ... for sample in range(T)]\<close>: one forward pass per sample,
  collecting the logits.
\<close>

fun mcd_samples ::
  "('p, 'os, 'r, 'x) framework \<Rightarrow> nat \<Rightarrow> ('p, 'os, 'r) state \<Rightarrow> 'x batch
   \<Rightarrow> (real \<times> real \<times> real) list list \<times> ('p, 'os, 'r) state" where
  "mcd_samples fw 0 st b = ([], st)"
| "mcd_samples fw (Suc n) st b =
     (case call_model fw st b of
        ((loss, logits), st1) \<Rightarrow>
          (case mcd_samples fw n st1 b of (rest, st2) \<Rightarrow> (logits # rest, st2)))"

text \<open>
  The body of \<^verbatim>\<open>if dropout > 0\<close>, after \<^verbatim>\<open>turn_on_dropout\<close>. \<^verbatim>\<open>range(None)\<close> raises
  TypeError; with no sample the array has one axis and \<^verbatim>\<open>np.argmax(..., axis=2)\<close> raises
  AxisError; otherwise the \<open>T\<close> rows of predicted classes are reduced column by column
  (one column per sample of the batch) by \<^verbatim>\<open>stats.mode\<close>.
\<close>

definition mcd_predictions :: "(real \<times> real \<times> real) list list \<Rightarrow> py_error + int list" where
  "mcd_predictions samples = try_map stats_mode (transpose (map (map argmax_row) samples))"

definition mcd_batch ::
  "('p, 'os, 'r, 'x) framework \<Rightarrow> int option \<Rightarrow> eval_locals \<Rightarrow> ('p, 'os, 'r) state \<Rightarrow> 'x batch
   \<Rightarrow> py_error \<times> ('p, 'os, 'r) state + eval_locals \<times> ('p, 'os, 'r) state" where
  "mcd_batch fw T loc st b =
     (case T of
        None \<Rightarrow> Inl (TypeError, st)
      | Some t \<Rightarrow>
          (case mcd_samples fw (nat t) st b of
             (samples, st1) \<Rightarrow>
               if samples = [] then Inl (AxisError, st1)
               else
                 (case mcd_predictions samples of
                    Inl e \<Rightarrow> Inl (e, st1)
                  | Inr predictions_mcd \<Rightarrow>
                      (case update_confusion_matrix (confusion_matrix_mcd loc) predictions_mcd (labels b) of
                         Inl e \<Rightarrow> Inl (e, st1)
                       | Inr cm \<Rightarrow>
                           (case accuracy_score (labels b) predictions_mcd of
                              Inl e \<Rightarrow> Inl (e, st1)
                            | Inr batch_acc_mcd \<Rightarrow>
                                Inr (loc\<lparr>confusion_matrix_mcd := cm,
                                         average_acc_mcd := average_acc_mcd loc + batch_acc_mcd\<rparr>,
                                     st1))))))"

definition evaluate_batch ::
  "('p, 'os, 'r, 'x) framework \<Rightarrow> real \<Rightarrow> int option \<Rightarrow> eval_locals \<Rightarrow> ('p, 'os, 'r) state
   \<Rightarrow> 'x batch \<Rightarrow> py_error \<times> ('p, 'os, 'r) state + eval_locals \<times> ('p, 'os, 'r) state" where
  "evaluate_batch fw dropout T loc st b =
     (case call_model fw (model_eval st) b of
        ((loss, logits), st1) \<Rightarrow>
          (let predictions = map argmax_row logits in
           case update_confusion_matrix (confusion_matrix loc) predictions (labels b) of
             Inl e \<Rightarrow> Inl (e, st1)
           | Inr cm \<Rightarrow>
               (case accuracy_score (labels b) predictions of
                  Inl e \<Rightarrow> Inl (e, st1)
                | Inr batch_acc \<Rightarrow>
                    (let loc1 = loc\<lparr>confusion_matrix := cm,
                                     average_acc := average_acc loc + batch_acc\<rparr>
                     in if dropout > 0 then mcd_batch fw T loc1 (turn_on_dropout st1) b
                        else Inr (loc1, st1)))))"

fun evaluate_loop ::
  "('p, 'os, 'r, 'x) framework \<Rightarrow> real \<Rightarrow> int option \<Rightarrow> eval_locals \<Rightarrow> ('p, 'os, 'r) state
   \<Rightarrow> 'x batch list \<Rightarrow> py_error \<times> ('p, 'os, 'r) state + eval_locals \<times> ('p, 'os, 'r) state" where
  "evaluate_loop fw dropout T loc st [] = Inr (loc, st)"
| "evaluate_loop fw dropout T loc st (b # bs) =
     (case evaluate_batch fw dropout T loc st b of
        Inl e \<Rightarrow> Inl e
      | Inr (loc', st') \<Rightarrow> evaluate_loop fw dropout T loc' st' bs)"

definition initial_locals :: eval_locals where
  "initial_locals =
     \<lparr>confusion_matrix = zeros 3 3, confusion_matrix_mcd = zeros 3 3,
      average_acc = 0, average_acc_mcd = 0\<rparr>"

text \<open>
  \<^verbatim>\<open>np.savetxt(f, m, fmt='%d', footer="\n")\<close>: one line per row, the cells separated by
  a space, then the footer behind the comment prefix.
\<close>

fun join_words :: "string list \<Rightarrow> string" where
  "join_words [] = []"
| "join_words [w] = w"
| "join_words (w # ws) = w @ '' '' @ join_words ws"

definition savetxt :: "matrix \<Rightarrow> string" where
  "savetxt m =
     concat (map (\<lambda>row. join_words (map str_nat row) @ [newline]) m)
     @ ''# '' @ [newline] @ ''# '' @ [newline]"

definition evaluate ::
  "('p, 'os, 'r, 'x) framework \<Rightarrow> 'x batch list \<Rightarrow> bool \<Rightarrow> real \<Rightarrow> int option
   \<Rightarrow> ('p, 'os, 'r) state \<Rightarrow> py_error \<times> ('p, 'os, 'r) state + real \<times> ('p, 'os, 'r) state" where
  "evaluate fw dataloader pretrained dropout T st =
     (case evaluate_loop fw dropout T initial_locals st dataloader of
        Inl e \<Rightarrow> Inl e
      | Inr (loc, st1) \<Rightarrow>
          if length dataloader = 0 then Inl (ZeroDivisionError, st1)
          else
            (let folder = evaluation_folder fw pretrained dropout;
                 st2 = write_to_file fw folder ''test_accuracy.txt''
                         (float_str fw (average_acc loc / real (length dataloader)) @ [newline]) st1;
                 st3 = st2\<lparr>files := append_file (folder @ sep fw @ ''confusion_matrix.txt'')
                                       (savetxt (confusion_matrix loc)) (files st2)\<rparr>;
                 st5 = (if dropout > 0 then
                          (let st4 = write_to_file fw folder ''test_accuracy_mcd.txt''
                                       (float_str fw (average_acc_mcd loc / real (length dataloader))
                                        @ [newline]) st3
                           in st4\<lparr>files := append_file (folder @ sep fw @ ''confusion_matrix_mcd.txt'')
                                               (savetxt (confusion_matrix_mcd loc)) (files st4)\<rparr>)
                        else st3)
             in Inr (average_acc loc / real (length dataloader), st5)))"

text \<open>A text that ends with a newline (the last character it has is the newline).\<close>

definition ends_with_newline :: "string \<Rightarrow> bool" where
  "ends_with_newline txt = (txt \<noteq> [] \<and> last txt = newline)"

text \<open>The state a call ends in, whether it returned or raised.\<close>

definition final_state :: "py_error \<times> 's + 'a \<times> 's \<Rightarrow> 's" where
  "final_state r = (case r of Inl (e, s) \<Rightarrow> s | Inr (a, s) \<Rightarrow> s)"

section \<open>Well-formed inputs\<close>

text \<open>
  What the framework guarantees and the data provide: the model returns one row of logits
  per sample of the batch, a batch is not empty, its labels are class indices of the
  three-class problem, and a saved checkpoint loads back.
\<close>

definition wf_framework :: "('p, 'os, 'r, 'x) framework \<Rightarrow> bool" where
  "wf_framework fw =
     (\<forall>p ms r b. length (snd (fst (forward fw p ms r b))) = length (labels b))"

definition wf_batch :: "'x batch \<Rightarrow> bool" where
  "wf_batch b = (labels b \<noteq> [] \<and> list_all (class_index 3) (labels b))"

definition checkpoints_load :: "('p, 'os, 'r, 'x) framework \<Rightarrow> bool" where
  "checkpoints_load fw = (\<forall>p. torch_load fw (torch_save fw p) = Some p)"

section \<open>A small concrete framework\<close>

text \<open>
  An instance on which the functions can be run: the parameters are one counter that
  every optimizer step increments, the optimizer state counts the steps made, the loss
  depends on the parameters only, and the logits of a batch are its inputs (one row per
  label), rotated by the random state when a dropout layer is active.
\<close>

definition dropout_active :: "module list \<Rightarrow> bool" where
  "dropout_active ms = list_ex (\<lambda>m. prefix ''Dropout'' (class_name m) \<and> training m) ms"

fun rotate_row :: "nat \<Rightarrow> real \<times> real \<times> real \<Rightarrow> real \<times> real \<times> real" where
  "rotate_row 0 l = l"
| "rotate_row (Suc n) (a, b, c) = rotate_row n (c, a, b)"

definition demo_loss :: "nat \<Rightarrow> real" where
  "demo_loss p = (if p = 2 \<or> p = 3 then 1 / 4 else 1)"

text \<open>One row of logits per label: the inputs, cut or padded to the number of labels.\<close>

fun fit_rows :: "(real \<times> real \<times> real) list \<Rightarrow> int list \<Rightarrow> (real \<times> real \<times> real) list" where
  "fit_rows xs [] = []"
| "fit_rows [] (y # ys) = (1, 0, 0) # fit_rows [] ys"
| "fit_rows (x # xs) (y # ys) = x # fit_rows xs ys"

definition demo_forward ::
  "nat \<Rightarrow> module list \<Rightarrow> nat \<Rightarrow> (real \<times> real \<times> real) list batch
   \<Rightarrow> (real \<times> (real \<times> real \<times> real) list) \<times> nat" where
  "demo_forward p ms r b =
     (if dropout_active ms
      then ((demo_loss p, map (rotate_row (r mod 3)) (fit_rows (inputs b) (labels b))), Suc r)
      else ((demo_loss p, fit_rows (inputs b) (labels b)), r))"

definition demo_framework :: "(nat, nat, nat, (real \<times> real \<times> real) list) framework" where
  "demo_framework =
     \<lparr>cwd = ''/w'', sep = ''/'', forward = demo_forward,
      backward_step = (\<lambda>os p ms r b. (Suc p, Suc os)),
      adamw = (\<lambda>p. 0),
      torch_save = (\<lambda>p. replicate p (CHR ''x'')),
      torch_load = (\<lambda>s. Some (length s)),
      float_str = (\<lambda>x. str_nat (nat \<lfloor>x * 100\<rfloor>))\<rparr>"

definition demo_state :: "(nat, nat, nat) state" where
  "demo_state =
     \<lparr>state_dict = 0,
      modules = [\<lparr>class_name = ''BertLayer'', training = True\<rparr>,
                 \<lparr>class_name = ''Dropout'', training = False\<rparr>,
                 \<lparr>class_name = ''LayerNorm'', training = False\<rparr>],
      opt_state = 0, opt_params = None, files = Map.empty, rng = 0, forward_calls = 0,
      torch_saves = []\<rparr>"

definition demo_batch :: "(real \<times> real \<times> real) list \<Rightarrow> int list \<Rightarrow> (real \<times> real \<times> real) list batch" where
  "demo_batch xs ys = \<lparr>inputs = xs, labels = ys\<rparr>"

definition small_loader :: "(real \<times> real \<times> real) list batch list" where
  "small_loader = [demo_batch [(1, 0, 0), (0, 1, 0)] [0, 0]]"

definition demo_loader :: "(real \<times> real \<times> real) list batch list" where
  "demo_loader =
     [demo_batch [(1, 0, 0), (1, 0, 0)] [0, 0],
      demo_batch [(1, 0, 0), (0, 1, 0)] [0, 0],
      demo_batch [(0, 1, 0)] [0]]"

section \<open>Decimal strings and paths\<close>

lemma digit_char_inj: "a < 10 \<Longrightarrow> b < 10 \<Longrightarrow> digit_char a = digit_char b \<Longrightarrow> a = b"
proof -
  assume a: "a < 10" and b: "b < 10" and e: "digit_char a = digit_char b"
  from e have "(of_char (char_of (48 + a)) :: nat) = of_char (char_of (48 + b))"
    by (simp add: digit_char_def)
  then have "(48 + a) mod 256 = (48 + b) mod 256"
    by (simp only: of_char_of)
  with a b show "a = b" by simp
qed

lemma str_nat_nonempty: "str_nat n \<noteq> []"
  by (subst str_nat.simps) simp

lemma str_nat_inj: "str_nat m = str_nat n \<Longrightarrow> m = n"
proof (induction m arbitrary: n rule: str_nat.induct)
  case (1 m)
  show ?case
  proof (cases "m < 10")
    case True
    then have sm: "str_nat m = [digit_char m]" by (subst str_nat.simps) simp
    show ?thesis
    proof (cases "n < 10")
      case True
      then have "str_nat n = [digit_char n]" by (subst str_nat.simps) simp
      with sm "1.prems" \<open>m < 10\<close> True show ?thesis by (simp add: digit_char_inj)
    next
      case False
      then have "str_nat n = str_nat (n div 10) @ [digit_char (n mod 10)]"
        by (subst str_nat.simps) simp
      with sm "1.prems" str_nat_nonempty [of "n div 10"] show ?thesis by simp
    qed
  next
    case False
    then have sm: "str_nat m = str_nat (m div 10) @ [digit_char (m mod 10)]"
      by (subst str_nat.simps) simp
    show ?thesis
    proof (cases "n < 10")
      case True
      then have "str_nat n = [digit_char n]" by (subst str_nat.simps) simp
      with sm "1.prems" str_nat_nonempty [of "m div 10"] show ?thesis by simp
    next
      case nf: False
      then have "str_nat n = str_nat (n div 10) @ [digit_char (n mod 10)]"
        by (subst str_nat.simps) simp
      with sm "1.prems" have a: "str_nat (m div 10) = str_nat (n div 10)"
        and b: "digit_char (m mod 10) = digit_char (n mod 10)" by simp_all
      from "1.IH" [OF False a] have d: "m div 10 = n div 10" .
      from b have "m mod 10 = n mod 10" by (simp add: digit_char_inj)
      with d show ?thesis by (metis div_mult_mod_eq)
    qed
  qed
qed

section \<open>First-occurrence arg-min and arg-max\<close>

lemma argmin_scan_first:
  fixes pre :: "'a::linorder list"
  assumes "length pre = i" "bi < i" "pre ! bi = bv"
    and "\<forall>k<i. bv \<le> pre ! k" and "\<forall>k<bi. bv < pre ! k"
  shows "argmin_scan bi bv i xs < length (pre @ xs)
       \<and> (\<forall>k<length (pre @ xs). (pre @ xs) ! argmin_scan bi bv i xs \<le> (pre @ xs) ! k)
       \<and> (\<forall>k<argmin_scan bi bv i xs. (pre @ xs) ! argmin_scan bi bv i xs < (pre @ xs) ! k)"
  using assms
proof (induction xs arbitrary: pre i bi bv)
  case Nil
  then show ?case by simp
next
  case (Cons x xs)
  let ?pre = "pre @ [x]"
  show ?case
  proof (cases "x < bv")
    case True
    have "argmin_scan i x (Suc i) xs < length (?pre @ xs)
       \<and> (\<forall>k<length (?pre @ xs). (?pre @ xs) ! argmin_scan i x (Suc i) xs \<le> (?pre @ xs) ! k)
       \<and> (\<forall>k<argmin_scan i x (Suc i) xs. (?pre @ xs) ! argmin_scan i x (Suc i) xs < (?pre @ xs) ! k)"
    proof (rule Cons.IH)
      show "length ?pre = Suc i" using Cons.prems by simp
      show "i < Suc i" by simp
      show "?pre ! i = x" using Cons.prems by (simp add: nth_append)
      show "\<forall>k<Suc i. x \<le> ?pre ! k"
        using Cons.prems True by (auto simp: nth_append less_Suc_eq intro: less_imp_le order.trans)
      show "\<forall>k<i. x < ?pre ! k"
        using Cons.prems True by (auto simp: nth_append intro: less_le_trans)
    qed
    with True show ?thesis by simp
  next
    case False
    have "argmin_scan bi bv (Suc i) xs < length (?pre @ xs)
       \<and> (\<forall>k<length (?pre @ xs). (?pre @ xs) ! argmin_scan bi bv (Suc i) xs \<le> (?pre @ xs) ! k)
       \<and> (\<forall>k<argmin_scan bi bv (Suc i) xs. (?pre @ xs) ! argmin_scan bi bv (Suc i) xs < (?pre @ xs) ! k)"
    proof (rule Cons.IH)
      show "length ?pre = Suc i" using Cons.prems by simp
      show "bi < Suc i" using Cons.prems by simp
      show "?pre ! bi = bv" using Cons.prems by (simp add: nth_append)
      show "\<forall>k<Suc i. bv \<le> ?pre ! k"
        using Cons.prems False by (auto simp: nth_append less_Suc_eq)
      show "\<forall>k<bi. bv < ?pre ! k"
        using Cons.prems by (auto simp: nth_append)
    qed
    with False show ?thesis by simp
  qed
qed

lemma np_argmin_first:
  fixes xs :: "'a::linorder list"
  assumes "xs \<noteq> []"
  shows "\<exists>j. np_argmin xs = Inr j \<and> j < length xs \<and> (\<forall>k<length xs. xs ! j \<le> xs ! k)
          \<and> (\<forall>k<j. xs ! j < xs ! k)"
proof -
  from assms obtain x ys where xs: "xs = x # ys" by (cases xs) auto
  have "argmin_scan 0 x 1 ys < length ([x] @ ys)
       \<and> (\<forall>k<length ([x] @ ys). ([x] @ ys) ! argmin_scan 0 x 1 ys \<le> ([x] @ ys) ! k)
       \<and> (\<forall>k<argmin_scan 0 x 1 ys. ([x] @ ys) ! argmin_scan 0 x 1 ys < ([x] @ ys) ! k)"
    by (rule argmin_scan_first) simp_all
  with xs show ?thesis by (simp add: np_argmin_def)
qed



lemma argmax_row_class: "class_index 3 (argmax_row l)"
  by (cases l) (simp add: argmax_row_def class_index_def)

section \<open>The mode of a column\<close>


section \<open>The majority vote of the MCD path\<close>




section \<open>write\_to\_file\<close>

text \<open>
  C9, as stated: the space is appended exactly when the text does not end with a newline.
  It fails for a text with a newline inside and none at its end: nothing is appended
  after it.
\<close>

theorem write_to_file_trailing_newline_counterexample:
  "\<not> ends_with_newline [CHR ''a'', newline, CHR ''b'']
   \<and> file_text (files (write_to_file demo_framework ''d'' ''log.txt''
                          [CHR ''a'', newline, CHR ''b''] demo_state)) ''d/log.txt''
       = [CHR ''a'', newline, CHR ''b'']
   \<and> file_text (files (write_to_file demo_framework ''d'' ''log.txt''
                          [CHR ''a'', newline, CHR ''b''] demo_state)) ''d/log.txt''
       \<noteq> file_text (files demo_state) ''d/log.txt'' @ [CHR ''a'', newline, CHR ''b''] @ '' ''"
  by (simp add: ends_with_newline_def write_to_file_def append_file_def file_text_def
      demo_framework_def demo_state_def newline_def)

text \<open>
  C9, amended: every call of \<open>write_to_file\<close> leaves the file with what it had, followed
  by the text, followed by one space exactly when the text contains no newline anywhere;
  no other file and nothing else of the state changes.
\<close>

theorem write_to_file_appends:
  "write_to_file fw folder file txt st =
     st\<lparr>files := (files st)(folder @ sep fw @ file \<mapsto>
          file_text (files st) (folder @ sep fw @ file) @ txt
          @ (if newline \<in> set txt then [] else '' ''))\<rparr>"
  by (simp add: write_to_file_def append_file_def file_text_def Let_def)

section \<open>turn\_on\_dropout\<close>

text \<open>
  C6. \<open>turn_on_dropout\<close> keeps the modules and their classes, sets the training flag of
  every module whose class name starts with \<open>Dropout\<close> (the test the code makes for a
  dropout layer), leaves every other module as it was, and changes nothing else of the
  state; after \<open>model.eval()\<close> the modules in training mode are exactly those.
\<close>

theorem turn_on_dropout_only_dropout:
  "length (modules (turn_on_dropout st)) = length (modules st)
   \<and> (\<forall>i<length (modules st).
        class_name (modules (turn_on_dropout st) ! i) = class_name (modules st ! i)
        \<and> (prefix ''Dropout'' (class_name (modules st ! i))
             \<longrightarrow> training (modules (turn_on_dropout st) ! i))
        \<and> (\<not> prefix ''Dropout'' (class_name (modules st ! i))
             \<longrightarrow> modules (turn_on_dropout st) ! i = modules st ! i)
        \<and> training (modules (turn_on_dropout (model_eval st)) ! i)
            = prefix ''Dropout'' (class_name (modules st ! i)))
   \<and> turn_on_dropout st = st\<lparr>modules := modules (turn_on_dropout st)\<rparr>"
  by (simp add: turn_on_dropout_def model_eval_def)

theorem turn_on_dropout_only_dropout_witness:
  "modules (turn_on_dropout demo_state)
     = [\<lparr>class_name = ''BertLayer'', training = True\<rparr>,
        \<lparr>class_name = ''Dropout'', training = True\<rparr>,
        \<lparr>class_name = ''LayerNorm'', training = False\<rparr>]
   \<and> modules (turn_on_dropout (model_eval demo_state))
     = [\<lparr>class_name = ''BertLayer'', training = False\<rparr>,
        \<lparr>class_name = ''Dropout'', training = True\<rparr>,
        \<lparr>class_name = ''LayerNorm'', training = False\<rparr>]
   \<and> state_dict (turn_on_dropout demo_state) = state_dict demo_state"
  using turn_on_dropout_only_dropout [of demo_state]
  by (simp add: turn_on_dropout_def model_eval_def demo_state_def)

section \<open>update\_confusion\_matrix\<close>

lemma np_index_class: "class_index n i \<Longrightarrow> np_index n i = Inr (nat i)"
  by (simp add: np_index_def class_index_def)

lemma increment_cell_square:
  assumes sq: "square n m" and l: "class_index n l" and p: "class_index n p"
  shows "\<exists>m'. increment_cell m l p = Inr m' \<and> square n m'
           \<and> (\<forall>a<n. \<forall>b<n. cell m' a b
                 = cell m a b + (if int a = l \<and> int b = p then 1 else 0))"
proof -
  from sq have len: "length m = n" and rows: "\<And>r. r < n \<Longrightarrow> length (m ! r) = n"
    by (auto simp: square_def list_all_length)
  from l have ln: "nat l < n" by (auto simp: class_index_def)
  from p have pn: "nat p < n" by (auto simp: class_index_def)
  let ?m' = "m[nat l := (m ! nat l)[nat p := Suc (m ! nat l ! nat p)]]"
  have res: "increment_cell m l p = Inr ?m'"
    using l p len rows [OF ln] by (simp add: increment_cell_def np_index_class)
  have sq': "square n ?m'"
    using sq ln by (auto simp: square_def list_all_length nth_list_update)
  have cells: "cell ?m' a b = cell m a b + (if int a = l \<and> int b = p then 1 else 0)"
    if "a < n" "b < n" for a b
    using that l p len rows ln pn
    by (auto simp: cell_def nth_list_update class_index_def)
  from res sq' cells show ?thesis by blast
qed

lemma pair_count_Cons:
  "pair_count (p # ps) (l # ls) a b
   = (if int a = l \<and> int b = p then 1 else 0) + pair_count ps ls a b"
  by (auto simp: pair_count_def)

lemma update_confusion_matrix_cells:
  assumes "square n m" and "length ps = length ls"
    and "list_all (class_index n) ps" and "list_all (class_index n) ls"
  shows "\<exists>m'. update_confusion_matrix m ps ls = Inr m' \<and> square n m'
           \<and> (\<forall>a<n. \<forall>b<n. cell m' a b = cell m a b + pair_count ps ls a b)"
  using assms
proof (induction m ps ls rule: update_confusion_matrix.induct)
  case (1 m ls)
  then show ?case by (simp add: pair_count_def)
next
  case (2 m p ps)
  then show ?case by simp
next
  case (3 m p ps l ls)
  from "3.prems" have l: "class_index n l" and p: "class_index n p" by simp_all
  from increment_cell_square [OF "3.prems"(1) l p] obtain m1 where
    m1: "increment_cell m l p = Inr m1" and sq1: "square n m1"
    and c1: "\<forall>a<n. \<forall>b<n. cell m1 a b = cell m a b + (if int a = l \<and> int b = p then 1 else 0)"
    by blast
  from "3.IH" [OF m1 sq1] "3.prems" obtain m' where
    m': "update_confusion_matrix m1 ps ls = Inr m'" and sq': "square n m'"
    and c': "\<forall>a<n. \<forall>b<n. cell m' a b = cell m1 a b + pair_count ps ls a b"
    by auto
  have "\<forall>a<n. \<forall>b<n. cell m' a b = cell m a b + pair_count (p # ps) (l # ls) a b"
    using c1 c' by (simp add: pair_count_Cons)
  with m1 m' sq' show ?case by simp
qed

lemma square_cells_eq:
  assumes "square n x" and "square n y" and "\<forall>a<n. \<forall>b<n. cell x a b = cell y a b"
  shows "x = y"
proof (rule nth_equalityI)
  show "length x = length y" using assms by (simp add: square_def)
next
  fix a assume "a < length x"
  with assms(1) have an: "a < n" by (simp add: square_def)
  from assms an have lx: "length (x ! a) = n" and ly: "length (y ! a) = n"
    by (auto simp: square_def list_all_length)
  show "x ! a = y ! a"
  proof (rule nth_equalityI)
    show "length (x ! a) = length (y ! a)" using lx ly by simp
  next
    fix b assume "b < length (x ! a)"
    with lx have "b < n" by simp
    with assms(3) an show "x ! a ! b = y ! a ! b" by (simp add: cell_def)
  qed
qed

text \<open>
  C7. On an \<open>n \<times> n\<close> matrix, with predictions and labels of equal length that are class
  indices \<open>0 \<dots> n-1\<close>, \<open>update_confusion_matrix\<close> returns an \<open>n \<times> n\<close> matrix whose cell
  \<open>(l, p)\<close> is the cell of the input plus the number of samples with label \<open>l\<close> and
  prediction \<open>p\<close> (a count, never rescaled); two batches applied in either order give the
  same matrix.
\<close>

theorem update_confusion_matrix_accumulates:
  assumes "square n m"
    and "length ps1 = length ls1" and "list_all (class_index n) ps1"
    and "list_all (class_index n) ls1"
    and "length ps2 = length ls2" and "list_all (class_index n) ps2"
    and "list_all (class_index n) ls2"
  shows "\<exists>m1 m2 m12 m21.
           update_confusion_matrix m ps1 ls1 = Inr m1 \<and> square n m1
           \<and> (\<forall>l<n. \<forall>p<n. cell m1 l p = cell m l p + pair_count ps1 ls1 l p)
           \<and> update_confusion_matrix m1 ps2 ls2 = Inr m12
           \<and> update_confusion_matrix m ps2 ls2 = Inr m2
           \<and> update_confusion_matrix m2 ps1 ls1 = Inr m21
           \<and> m12 = m21"
proof -
  from update_confusion_matrix_cells [OF assms(1-4)] obtain m1 where
    m1: "update_confusion_matrix m ps1 ls1 = Inr m1" "square n m1"
    "\<forall>a<n. \<forall>b<n. cell m1 a b = cell m a b + pair_count ps1 ls1 a b" by blast
  from update_confusion_matrix_cells [OF m1(2) assms(5-7)] obtain m12 where
    m12: "update_confusion_matrix m1 ps2 ls2 = Inr m12" "square n m12"
    "\<forall>a<n. \<forall>b<n. cell m12 a b = cell m1 a b + pair_count ps2 ls2 a b" by blast
  from update_confusion_matrix_cells [OF assms(1) assms(5-7)] obtain m2 where
    m2: "update_confusion_matrix m ps2 ls2 = Inr m2" "square n m2"
    "\<forall>a<n. \<forall>b<n. cell m2 a b = cell m a b + pair_count ps2 ls2 a b" by blast
  from update_confusion_matrix_cells [OF m2(2) assms(2-4)] obtain m21 where
    m21: "update_confusion_matrix m2 ps1 ls1 = Inr m21" "square n m21"
    "\<forall>a<n. \<forall>b<n. cell m21 a b = cell m2 a b + pair_count ps1 ls1 a b" by blast
  have "\<forall>a<n. \<forall>b<n. cell m12 a b = cell m21 a b"
    using m1(3) m12(3) m2(3) m21(3) by simp
  with m12(2) m21(2) have "m12 = m21" by (rule square_cells_eq)
  with m1 m12(1) m2(1) m21(1) show ?thesis by blast
qed

theorem update_confusion_matrix_accumulates_witness:
  "update_confusion_matrix (zeros 3 3) [0, 1, 1] [0, 0, 1] = Inr [[1, 1, 0], [0, 1, 0], [0, 0, 0]]
   \<and> update_confusion_matrix [[1, 1, 0], [0, 1, 0], [0, 0, 0]] [2, 1] [2, 0]
       = Inr [[1, 2, 0], [0, 1, 0], [0, 0, 1]]
   \<and> update_confusion_matrix (zeros 3 3) [2, 1] [2, 0] = Inr [[0, 1, 0], [0, 0, 0], [0, 0, 1]]
   \<and> update_confusion_matrix [[0, 1, 0], [0, 0, 0], [0, 0, 1]] [0, 1, 1] [0, 0, 1]
       = Inr [[1, 2, 0], [0, 1, 0], [0, 0, 1]]"
  using update_confusion_matrix_accumulates
    [of 3 "zeros 3 3" "[0, 1, 1]" "[0, 0, 1]" "[2, 1]" "[2, 0]"]
  by (simp add: zeros_def increment_cell_def np_index_def square_def class_index_def
      numeral_3_eq_3)

section \<open>The means of training\_step and validation\_step\<close>

lemma training_loop_sums:
  "training_loop fw (el, aa) st bs = Inr ((el', aa'), st') \<Longrightarrow>
   length (training_batches fw st bs) = length bs
   \<and> aa' = aa + sum_list (map fst (training_batches fw st bs))
   \<and> el' = el + sum_list (map snd (training_batches fw st bs))"
proof (induction bs arbitrary: el aa st)
  case Nil
  then show ?case by simp
next
  case (Cons b bs)
  obtain loss logits st1 where cm: "call_model fw st b = ((loss, logits), st1)"
    by (metis prod.exhaust)
  show ?case
  proof (cases "accuracy_score (labels b) (map argmax_row logits)")
    case (Inl e)
    with Cons.prems cm show ?thesis by simp
  next
    case (Inr acc)
    obtain p' os' where bs: "backward_step fw (opt_state st1) (state_dict st1) (modules st1) (rng st) b = (p', os')"
      by (metis prod.exhaust)
    from Cons.prems cm Inr bs have
      "training_loop fw (el + loss, aa + acc) (st1\<lparr>state_dict := p', opt_state := os'\<rparr>) bs
       = Inr ((el', aa'), st')" by simp
    from Cons.IH [OF this] cm Inr bs show ?thesis by simp
  qed
qed

lemma validation_loop_sums:
  "validation_loop fw (aa, el) st bs = Inr ((aa', el'), st') \<Longrightarrow>
   length (validation_batches fw st bs) = length bs
   \<and> aa' = aa + sum_list (map fst (validation_batches fw st bs))
   \<and> el' = el + sum_list (map snd (validation_batches fw st bs))"
proof (induction bs arbitrary: el aa st)
  case Nil
  then show ?case by simp
next
  case (Cons b bs)
  obtain loss logits st1 where cm: "call_model fw st b = ((loss, logits), st1)"
    by (metis prod.exhaust)
  show ?case
  proof (cases "accuracy_score (labels b) (map argmax_row logits)")
    case (Inl e)
    with Cons.prems cm show ?thesis by simp
  next
    case (Inr acc)
    from Cons.prems cm Inr have
      "validation_loop fw (aa + acc, el + loss) st1 bs = Inr ((aa', el'), st')" by simp
    from Cons.IH [OF this] cm Inr show ?thesis by simp
  qed
qed

lemma call_model_logits:
  assumes wf: "wf_framework fw" and cm: "call_model fw st b = ((loss, logits), st1)"
  shows "length logits = length (labels b)"
proof -
  from wf have "length (snd (fst (forward fw (state_dict st) (modules st) (rng st) b)))
                = length (labels b)"
    unfolding wf_framework_def by blast
  moreover from cm have "fst (forward fw (state_dict st) (modules st) (rng st) b) = (loss, logits)"
    by (auto simp: call_model_def split: prod.splits)
  ultimately show ?thesis by simp
qed

lemma accuracy_score_returns:
  "y_true \<noteq> [] \<Longrightarrow> length y_pred = length y_true \<Longrightarrow> \<exists>a. accuracy_score y_true y_pred = Inr a"
  by (simp add: accuracy_score_def)

lemma training_loop_returns:
  assumes "wf_framework fw" and "list_all wf_batch bs"
  shows "\<exists>r st'. training_loop fw acc st bs = Inr (r, st')"
  using assms(2)
proof (induction bs arbitrary: acc st)
  case Nil
  then show ?case by (cases acc) simp
next
  case (Cons b bs)
  obtain el aa where acc: "acc = (el, aa)" by (cases acc)
  obtain loss logits st1 where cm: "call_model fw st b = ((loss, logits), st1)"
    by (metis prod.exhaust)
  from Cons.prems have "labels b \<noteq> []" by (simp add: wf_batch_def)
  with call_model_logits [OF assms(1) cm]
  obtain a where a: "accuracy_score (labels b) (map argmax_row logits) = Inr a"
    using accuracy_score_returns [of "labels b" "map argmax_row logits"] by auto
  obtain p' os' where bs: "backward_step fw (opt_state st1) (state_dict st1) (modules st1) (rng st) b = (p', os')"
    by (metis prod.exhaust)
  from Cons.prems have "list_all wf_batch bs" by simp
  from Cons.IH [OF this] show ?case using acc cm a bs by simp
qed

lemma validation_loop_returns:
  assumes "wf_framework fw" and "list_all wf_batch bs"
  shows "\<exists>r st'. validation_loop fw acc st bs = Inr (r, st')"
  using assms(2)
proof (induction bs arbitrary: acc st)
  case Nil
  then show ?case by (cases acc) simp
next
  case (Cons b bs)
  obtain aa el where acc: "acc = (aa, el)" by (cases acc)
  obtain loss logits st1 where cm: "call_model fw st b = ((loss, logits), st1)"
    by (metis prod.exhaust)
  from Cons.prems have "labels b \<noteq> []" by (simp add: wf_batch_def)
  with call_model_logits [OF assms(1) cm]
  obtain a where a: "accuracy_score (labels b) (map argmax_row logits) = Inr a"
    using accuracy_score_returns [of "labels b" "map argmax_row logits"] by auto
  from Cons.prems have "list_all wf_batch bs" by simp
  from Cons.IH [OF this] show ?case using acc cm a by simp
qed

lemma training_step_returns:
  assumes "wf_framework fw" and "list_all wf_batch dl" and "dl \<noteq> []"
  shows "\<exists>r st'. training_step fw dl st = Inr (r, st')"
proof -
  from training_loop_returns [OF assms(1,2)] obtain r st' where
    "training_loop fw (0, 0) (model_train st) dl = Inr (r, st')" by blast
  with assms(3) show ?thesis by (cases r) (simp add: training_step_def)
qed

lemma validation_step_returns:
  assumes "wf_framework fw" and "list_all wf_batch dl" and "dl \<noteq> []"
  shows "\<exists>r st'. validation_step fw dl st = Inr (r, st')"
proof -
  from validation_loop_returns [OF assms(1,2)] obtain r st' where
    "validation_loop fw (0, 0) (model_eval st) dl = Inr (r, st')" by blast
  with assms(3) show ?thesis by (cases r) (simp add: validation_step_def)
qed

lemma training_step_mean:
  assumes "training_step fw dl st = Inr ((acc, loss), st')"
  shows "dl \<noteq> [] \<and> length (training_batches fw (model_train st) dl) = length dl
         \<and> acc = sum_list (map fst (training_batches fw (model_train st) dl)) / real (length dl)
         \<and> loss = sum_list (map snd (training_batches fw (model_train st) dl)) / real (length dl)"
proof -
  from assms obtain el aa where
    loop: "training_loop fw (0, 0) (model_train st) dl = Inr ((el, aa), st')"
    and ne: "dl \<noteq> []" and acc: "acc = aa / real (length dl)" and loss: "loss = el / real (length dl)"
    by (auto simp: training_step_def split: sum.splits prod.splits if_splits)
  from training_loop_sums [OF loop] ne acc loss show ?thesis by simp
qed

lemma validation_step_mean:
  assumes "validation_step fw dl st = Inr ((acc, loss), st')"
  shows "dl \<noteq> [] \<and> length (validation_batches fw (model_eval st) dl) = length dl
         \<and> acc = sum_list (map fst (validation_batches fw (model_eval st) dl)) / real (length dl)
         \<and> loss = sum_list (map snd (validation_batches fw (model_eval st) dl)) / real (length dl)"
proof -
  from assms obtain aa el where
    loop: "validation_loop fw (0, 0) (model_eval st) dl = Inr ((aa, el), st')"
    and ne: "dl \<noteq> []" and acc: "acc = aa / real (length dl)" and loss: "loss = el / real (length dl)"
    by (auto simp: validation_step_def split: sum.splits prod.splits if_splits)
  from validation_loop_sums [OF loop] ne acc loss show ?thesis by simp
qed

text \<open>
  C8. On a data loader of \<open>N \<ge> 1\<close> well-formed batches, \<open>training_step\<close> and
  \<open>validation_step\<close> return, and what each returns is the pair of the sum of the \<open>N\<close>
  per-batch accuracies divided by \<open>N\<close> and the sum of the \<open>N\<close> per-batch losses divided
  by \<open>N\<close>: every batch weighs the same, whatever its size.
\<close>

theorem step_means_are_unweighted:
  assumes "dl \<noteq> []" and "wf_framework fw" and "list_all wf_batch dl"
  shows "\<exists>st1 st2.
           training_step fw dl st
             = Inr ((sum_list (map fst (training_batches fw (model_train st) dl)) / real (length dl),
                     sum_list (map snd (training_batches fw (model_train st) dl)) / real (length dl)),
                    st1)
           \<and> length (training_batches fw (model_train st) dl) = length dl
           \<and> validation_step fw dl st
             = Inr ((sum_list (map fst (validation_batches fw (model_eval st) dl)) / real (length dl),
                     sum_list (map snd (validation_batches fw (model_eval st) dl)) / real (length dl)),
                    st2)
           \<and> length (validation_batches fw (model_eval st) dl) = length dl"
proof -
  from training_step_returns [OF assms(2,3,1)] obtain a l st1 where
    t: "training_step fw dl st = Inr ((a, l), st1)" by (metis prod.exhaust)
  from validation_step_returns [OF assms(2,3,1)] obtain a' l' st2 where
    v: "validation_step fw dl st = Inr ((a', l'), st2)" by (metis prod.exhaust)
  from training_step_mean [OF t] validation_step_mean [OF v] t v show ?thesis by auto
qed

lemma length_fit_rows: "length (fit_rows xs ys) = length ys"
  by (induction xs ys rule: fit_rows.induct) simp_all

lemma demo_wf: "wf_framework demo_framework"
  by (simp add: wf_framework_def demo_framework_def demo_forward_def length_fit_rows)

theorem step_means_are_unweighted_witness:
  "map (\<lambda>b. length (labels b)) demo_loader = [2, 2, 1]
   \<and> validation_batches demo_framework (model_eval demo_state) demo_loader
       = [(1, 1), (1 / 2, 1), (0, 1)]
   \<and> fst (projr (validation_step demo_framework demo_loader demo_state)) = (1 / 2, 1)
   \<and> training_batches demo_framework (model_train (demo_state\<lparr>modules := []\<rparr>)) demo_loader
       = [(1, 1), (1 / 2, 1), (0, 1 / 4)]
   \<and> fst (projr (training_step demo_framework demo_loader (demo_state\<lparr>modules := []\<rparr>)))
       = (1 / 2, 3 / 4)"
proof -
  have ne: "demo_loader \<noteq> []" by (simp add: demo_loader_def)
  have wb: "list_all wf_batch demo_loader"
    by (simp add: demo_loader_def demo_batch_def wf_batch_def class_index_def)
  have vb: "validation_batches demo_framework (model_eval demo_state) demo_loader
            = [(1, 1), (1 / 2, 1), (0, 1)]"
    by (simp add: demo_loader_def demo_batch_def demo_state_def model_eval_def call_model_def
        demo_framework_def demo_forward_def dropout_active_def demo_loss_def
        accuracy_score_def argmax_row_def)
  have tb: "training_batches demo_framework (model_train (demo_state\<lparr>modules := []\<rparr>)) demo_loader
            = [(1, 1), (1 / 2, 1), (0, 1 / 4)]"
    by (simp add: demo_loader_def demo_batch_def demo_state_def model_train_def call_model_def
        demo_framework_def demo_forward_def dropout_active_def demo_loss_def
        accuracy_score_def argmax_row_def)
  have sz: "map (\<lambda>b. length (labels b)) demo_loader = [2, 2, 1]"
    by (simp add: demo_loader_def demo_batch_def)
  have len: "length demo_loader = 3" by (simp add: demo_loader_def)
  from step_means_are_unweighted [OF ne demo_wf wb, of "demo_state\<lparr>modules := []\<rparr>"]
  have t: "fst (projr (training_step demo_framework demo_loader (demo_state\<lparr>modules := []\<rparr>)))
           = (1 / 2, 3 / 4)"
    by (auto simp: tb len)
  from step_means_are_unweighted [OF ne demo_wf wb, of demo_state]
  have v: "fst (projr (validation_step demo_framework demo_loader demo_state)) = (1 / 2, 1)"
    by (auto simp: vb len)
  from sz vb v tb t show ?thesis by simp
qed

section \<open>evaluate without dropout\<close>

lemma call_model_frame:
  "call_model fw st b = (out, st1) \<Longrightarrow>
   files st1 = files st \<and> modules st1 = modules st \<and> state_dict st1 = state_dict st
   \<and> opt_state st1 = opt_state st \<and> opt_params st1 = opt_params st
   \<and> forward_calls st1 = Suc (forward_calls st)"
  by (auto simp: call_model_def split: prod.splits)

lemma mcd_samples_frame:
  "mcd_samples fw n st b = (samples, st1) \<Longrightarrow>
   files st1 = files st \<and> forward_calls st1 = forward_calls st + n \<and> length samples = n"
proof (induction n arbitrary: st samples st1)
  case 0
  then show ?case by simp
next
  case (Suc n)
  obtain out st2 where cm: "call_model fw st b = (out, st2)" by (metis prod.exhaust)
  obtain rest st3 where r: "mcd_samples fw n st2 b = (rest, st3)" by (metis prod.exhaust)
  from Suc.prems cm r have "st1 = st3" "samples = snd out # rest"
    by (auto split: prod.splits)
  with Suc.IH [OF r] call_model_frame [OF cm] show ?case by simp
qed

lemma final_state_simps [simp]:
  "final_state (Inl (e, s)) = s" "final_state (Inr (a, s)) = s"
  by (simp_all add: final_state_def)

lemma mcd_batch_files:
  "files (final_state (mcd_batch fw T loc st b)) = files st"
proof (cases T)
  case None
  then show ?thesis by (simp add: mcd_batch_def)
next
  case (Some t)
  obtain samples st1 where s: "mcd_samples fw (nat t) st b = (samples, st1)"
    by (metis prod.exhaust)
  from mcd_samples_frame [OF s] have "files st1 = files st" by simp
  with Some s show ?thesis
    by (auto simp: mcd_batch_def split: sum.splits)
qed

lemma evaluate_batch_files:
  "files (final_state (evaluate_batch fw dropout T loc st b)) = files st"
proof -
  obtain loss logits st1 where cm: "call_model fw (model_eval st) b = ((loss, logits), st1)"
    by (metis prod.exhaust)
  from call_model_frame [OF cm] have f: "files st1 = files st" by (simp add: model_eval_def)
  have t: "files (turn_on_dropout st1) = files st1" by (simp add: turn_on_dropout_def)
  show ?thesis
  proof (cases "update_confusion_matrix (confusion_matrix loc) (map argmax_row logits) (labels b)")
    case (Inl e)
    with cm f show ?thesis by (simp add: evaluate_batch_def)
  next
    case cmx: (Inr cm')
    show ?thesis
    proof (cases "accuracy_score (labels b) (map argmax_row logits)")
      case (Inl e)
      with cm cmx f show ?thesis by (simp add: evaluate_batch_def)
    next
      case (Inr acc)
      show ?thesis
      proof (cases "0 < dropout")
        case True
        with cm cmx Inr f t mcd_batch_files [of fw T _ "turn_on_dropout st1" b] show ?thesis
          by (simp add: evaluate_batch_def Let_def)
      next
        case False
        with cm cmx Inr f show ?thesis by (simp add: evaluate_batch_def Let_def)
      qed
    qed
  qed
qed

lemma evaluate_loop_files:
  "files (final_state (evaluate_loop fw dropout T loc st bs)) = files st"
proof (induction bs arbitrary: loc st)
  case Nil
  then show ?case by simp
next
  case (Cons b bs)
  show ?case
  proof (cases "evaluate_batch fw dropout T loc st b")
    case (Inl e)
    with evaluate_batch_files [of fw dropout T loc st b] show ?thesis
      by (cases e) simp
  next
    case (Inr r)
    obtain loc' st' where r: "r = (loc', st')" by (cases r)
    from Inr r evaluate_batch_files [of fw dropout T loc st b] have "files st' = files st"
      by simp
    with Cons.IH [of loc' st'] Inr r show ?thesis by simp
  qed
qed

lemma evaluate_batch_no_dropout:
  assumes "\<not> 0 < dropout" and "evaluate_batch fw dropout T loc st b = Inr (loc', st')"
  shows "confusion_matrix_mcd loc' = confusion_matrix_mcd loc
         \<and> average_acc_mcd loc' = average_acc_mcd loc
         \<and> forward_calls st' = Suc (forward_calls st)"
proof -
  obtain out st1 where cm: "call_model fw (model_eval st) b = (out, st1)"
    by (metis prod.exhaust)
  from call_model_frame [OF cm] have "forward_calls st1 = Suc (forward_calls st)"
    by (simp add: model_eval_def)
  with assms cm show ?thesis
    by (auto simp: evaluate_batch_def Let_def split: sum.splits prod.splits)
qed

lemma evaluate_loop_no_dropout:
  assumes "\<not> 0 < dropout"
  shows "evaluate_loop fw dropout T loc st bs = Inr (loc', st') \<Longrightarrow>
         confusion_matrix_mcd loc' = confusion_matrix_mcd loc
         \<and> average_acc_mcd loc' = average_acc_mcd loc
         \<and> forward_calls st' = forward_calls st + length bs"
proof (induction bs arbitrary: loc st)
  case Nil
  then show ?case by simp
next
  case (Cons b bs)
  from Cons.prems obtain loc1 st1 where
    b: "evaluate_batch fw dropout T loc st b = Inr (loc1, st1)"
    and rest: "evaluate_loop fw dropout T loc1 st1 bs = Inr (loc', st')"
    by (auto split: sum.splits)
  from evaluate_batch_no_dropout [OF assms b] Cons.IH [OF rest] show ?case by simp
qed

lemma not_mcd_suffix:
  "\<not> suffix ''_mcd.txt'' (d @ ''test_accuracy.txt'')"
  "\<not> suffix ''_mcd.txt'' (d @ ''confusion_matrix.txt'')"
  by (simp_all add: suffix_to_prefix)


lemma write_to_file_frame:
  "state_dict (write_to_file fw folder file txt st) = state_dict st
   \<and> modules (write_to_file fw folder file txt st) = modules st
   \<and> opt_state (write_to_file fw folder file txt st) = opt_state st
   \<and> opt_params (write_to_file fw folder file txt st) = opt_params st
   \<and> forward_calls (write_to_file fw folder file txt st) = forward_calls st"
  by (simp add: write_to_file_def Let_def)

lemma write_to_file_other:
  "path \<noteq> folder @ sep fw @ file \<Longrightarrow> files (write_to_file fw folder file txt st) path = files st path"
  by (simp add: write_to_file_def append_file_def Let_def)

lemma append_file_other:
  "path \<noteq> q \<Longrightarrow> append_file q txt fs path = fs path"
  by (simp add: append_file_def)

lemma evaluate_no_dropout_files:
  assumes "\<not> 0 < dropout" and "suffix ''_mcd.txt'' path"
  shows "files (final_state (evaluate fw dl pretrained dropout T st)) path = files st path"
proof (cases "evaluate_loop fw dropout T initial_locals st dl")
  case (Inl e)
  with evaluate_loop_files [of fw dropout T initial_locals st dl] show ?thesis
    by (cases e) (simp add: evaluate_def)
next
  case (Inr r)
  obtain loc st1 where r: "r = (loc, st1)" by (cases r)
  from Inr r evaluate_loop_files [of fw dropout T initial_locals st dl]
  have f: "files st1 = files st" by simp
  let ?folder = "evaluation_folder fw pretrained dropout"
  have p1: "path \<noteq> ?folder @ sep fw @ ''test_accuracy.txt''"
    using assms(2) not_mcd_suffix(1) [of "?folder @ sep fw"] by auto
  have p2: "path \<noteq> ?folder @ sep fw @ ''confusion_matrix.txt''"
    using assms(2) not_mcd_suffix(2) [of "?folder @ sep fw"] by auto
  show ?thesis
    using Inr r f assms(1) p1 p2
    by (simp add: evaluate_def Let_def write_to_file_other append_file_other)
qed

lemma evaluate_no_dropout_calls:
  assumes "\<not> 0 < dropout" and "evaluate fw dl pretrained dropout T st = Inr (a, st')"
  shows "forward_calls st' = forward_calls st + length dl"
proof -
  from assms(2) obtain loc st1 where
    loop: "evaluate_loop fw dropout T initial_locals st dl = Inr (loc, st1)"
    by (auto simp: evaluate_def split: sum.splits)
  from evaluate_loop_no_dropout [OF assms(1) loop]
  have "forward_calls st1 = forward_calls st + length dl" by simp
  with assms loop show ?thesis
    by (auto simp: evaluate_def Let_def write_to_file_frame split: if_splits)
qed

text \<open>
  C5. With dropout equal to 0, the loop of \<open>evaluate\<close> leaves the MCD confusion matrix
  all-zero and the MCD running accuracy 0 after any number of batches and makes one
  forward pass per batch, and \<open>evaluate\<close>, whether it returns or raises, changes no file
  whose name ends in \<open>_mcd.txt\<close>.
\<close>

theorem evaluate_without_dropout_skips_mcd:
  "(\<forall>loc' st'. evaluate_loop fw 0 T initial_locals st bs = Inr (loc', st') \<longrightarrow>
       confusion_matrix_mcd loc' = zeros 3 3 \<and> average_acc_mcd loc' = 0
       \<and> forward_calls st' = forward_calls st + length bs)
   \<and> (\<forall>path. suffix ''_mcd.txt'' path \<longrightarrow>
         files (final_state (evaluate fw dl pretrained 0 T st)) path = files st path)
   \<and> (\<forall>a st'. evaluate fw dl pretrained 0 T st = Inr (a, st') \<longrightarrow>
         forward_calls st' = forward_calls st + length dl)"
proof -
  have nd: "\<not> (0::real) < 0" by simp
  have a: "confusion_matrix_mcd loc' = zeros 3 3 \<and> average_acc_mcd loc' = 0
           \<and> forward_calls st' = forward_calls st + length bs"
    if "evaluate_loop fw 0 T initial_locals st bs = Inr (loc', st')" for loc' st'
    using evaluate_loop_no_dropout [OF nd that] by (simp add: initial_locals_def)
  from a evaluate_no_dropout_files [OF nd] evaluate_no_dropout_calls [OF nd]
  show ?thesis by blast
qed

lemma demo_evaluate_loop:
  "evaluate_loop demo_framework 0 None initial_locals demo_state demo_loader
   = Inr (\<lparr>confusion_matrix = [[3, 2, 0], [0, 0, 0], [0, 0, 0]],
            confusion_matrix_mcd = zeros 3 3, average_acc = 3 / 2, average_acc_mcd = 0\<rparr>,
          (model_eval demo_state)\<lparr>forward_calls := 3\<rparr>)"
  by (simp add: demo_loader_def demo_batch_def demo_state_def model_eval_def call_model_def
        demo_framework_def demo_forward_def dropout_active_def demo_loss_def
        accuracy_score_def argmax_row_def evaluate_batch_def initial_locals_def zeros_def
        increment_cell_def np_index_def numeral_3_eq_3)

theorem evaluate_without_dropout_skips_mcd_witness:
  "confusion_matrix_mcd (fst (projr (evaluate_loop demo_framework 0 None initial_locals
                                        demo_state demo_loader))) = zeros 3 3
   \<and> average_acc_mcd (fst (projr (evaluate_loop demo_framework 0 None initial_locals
                                        demo_state demo_loader))) = 0
   \<and> forward_calls (final_state (evaluate demo_framework demo_loader True 0 None demo_state)) = 3
   \<and> files (final_state (evaluate demo_framework demo_loader True 0 None demo_state))
        ''/w/evaluation_data/pretrained/normal/test_accuracy_mcd.txt'' = None
   \<and> files (final_state (evaluate demo_framework demo_loader True 0 None demo_state))
        ''/w/evaluation_data/pretrained/normal/confusion_matrix_mcd.txt'' = None"
proof -
  have len: "length demo_loader = 3" by (simp add: demo_loader_def)
  have "\<not> isl (evaluate demo_framework demo_loader True 0 None demo_state)"
    by (simp add: evaluate_def demo_evaluate_loop len Let_def)
  then have ev: "\<exists>a st'. evaluate demo_framework demo_loader True 0 None demo_state = Inr (a, st')"
    by (cases "evaluate demo_framework demo_loader True 0 None demo_state") auto
  have fs: "files demo_state = Map.empty" and fc: "forward_calls demo_state = 0"
    by (simp_all add: demo_state_def)
  from ev evaluate_without_dropout_skips_mcd
    [of demo_framework None demo_state demo_loader demo_loader True]
  show ?thesis
    by (auto simp: demo_evaluate_loop len fs fc suffix_to_prefix)
qed

section \<open>evaluate with dropout and no repetition count\<close>

lemma evaluate_batch_no_T:
  assumes "0 < dropout"
  shows "\<exists>e st'. evaluate_batch fw dropout None loc st b = Inl (e, st')
          \<and> (wf_framework fw \<and> wf_batch b \<and> square 3 (confusion_matrix loc)
               \<longrightarrow> e = TypeError \<and> forward_calls st' = Suc (forward_calls st))"
proof -
  obtain loss logits st1 where cm: "call_model fw (model_eval st) b = ((loss, logits), st1)"
    by (metis prod.exhaust)
  from call_model_frame [OF cm] have fc: "forward_calls st1 = Suc (forward_calls st)"
    by (simp add: model_eval_def)
  let ?preds = "map argmax_row logits"
  have pc: "list_all (class_index 3) ?preds"
    by (simp add: list_all_iff argmax_row_class)
  show ?thesis
  proof (cases "wf_framework fw \<and> wf_batch b \<and> square 3 (confusion_matrix loc)")
    case True
    then have wf: "wf_framework fw" and ne: "labels b \<noteq> []"
      and lc: "list_all (class_index 3) (labels b)" and sq: "square 3 (confusion_matrix loc)"
      by (simp_all add: wf_batch_def)
    from call_model_logits [OF wf cm] have len: "length ?preds = length (labels b)" by simp
    from update_confusion_matrix_cells [OF sq len pc lc] obtain m' where
      u: "update_confusion_matrix (confusion_matrix loc) ?preds (labels b) = Inr m'" by blast
    from accuracy_score_returns [OF ne len] obtain a where
      a: "accuracy_score (labels b) ?preds = Inr a" by blast
    from cm u a assms fc show ?thesis
      by (simp add: evaluate_batch_def Let_def mcd_batch_def turn_on_dropout_def)
  next
    case False
    then show ?thesis
      using cm assms
      by (auto simp: evaluate_batch_def Let_def mcd_batch_def split: sum.splits)
  qed
qed

text \<open>
  C10. With \<open>dropout > 0\<close>, \<open>T\<close> left at \<open>None\<close> and a data loader that is not empty,
  \<open>evaluate\<close> raises and no file has changed when it does; when the first batch is
  well formed the exception is the TypeError of \<open>range(None)\<close>, raised after the single
  forward pass of the point prediction and before any MCD sample.
\<close>

theorem evaluate_dropout_requires_T:
  assumes "0 < dropout"
  shows "\<exists>e st'. evaluate fw (b # bs) pretrained dropout None st = Inl (e, st')
          \<and> files st' = files st
          \<and> (wf_framework fw \<and> wf_batch b
               \<longrightarrow> e = TypeError \<and> forward_calls st' = Suc (forward_calls st))"
proof -
  have sq: "square 3 (confusion_matrix initial_locals)"
    by (simp add: initial_locals_def zeros_def square_def numeral_3_eq_3)
  from evaluate_batch_no_T [OF assms, of fw initial_locals st b] obtain e st' where
    eb: "evaluate_batch fw dropout None initial_locals st b = Inl (e, st')"
    and ty: "wf_framework fw \<and> wf_batch b \<longrightarrow> e = TypeError \<and> forward_calls st' = Suc (forward_calls st)"
    using sq by blast
  from eb have ev: "evaluate fw (b # bs) pretrained dropout None st = Inl (e, st')"
    by (simp add: evaluate_def)
  from eb evaluate_batch_files [of fw dropout None initial_locals st b]
  have "files st' = files st" by simp
  with ev ty show ?thesis by blast
qed

theorem evaluate_dropout_requires_T_witness:
  "isl (evaluate demo_framework demo_loader True (1 / 10) None demo_state)
   \<and> fst (projl (evaluate demo_framework demo_loader True (1 / 10) None demo_state)) = TypeError
   \<and> files (snd (projl (evaluate demo_framework demo_loader True (1 / 10) None demo_state)))
       = Map.empty
   \<and> forward_calls (snd (projl (evaluate demo_framework demo_loader True (1 / 10) None demo_state)))
       = 1"
proof -
  have d: "(0::real) < 1 / 10" by simp
  have wb: "wf_batch (demo_batch [(1, 0, 0), (1, 0, 0)] [0, 0])"
    by (simp add: demo_batch_def wf_batch_def class_index_def)
  have fs: "files demo_state = Map.empty" and fc: "forward_calls demo_state = 0"
    by (simp_all add: demo_state_def)
  from evaluate_dropout_requires_T [OF d, of demo_framework
      "demo_batch [(1, 0, 0), (1, 0, 0)] [0, 0]"
      "[demo_batch [(1, 0, 0), (0, 1, 0)] [0, 0], demo_batch [(0, 1, 0)] [0]]" True demo_state]
    demo_wf wb
  show ?thesis by (auto simp: demo_loader_def fs fc)
qed

section \<open>Checkpoints and logs of train\<close>

lemma checkpoint_path_inj: "checkpoint_path fw i = checkpoint_path fw j \<longleftrightarrow> i = j"
  by (auto simp: checkpoint_path_def dest: str_nat_inj)

lemma checkpoint_not_log:
  "checkpoint_path fw i \<noteq> evaluation_folder fw pretrained dropout @ sep fw @ file"
  by (simp add: checkpoint_path_def evaluation_folder_def Let_def)

lemma write_to_file_checkpoint:
  "files (write_to_file fw (evaluation_folder fw pretrained dropout) file txt st)
     (checkpoint_path fw i) = files st (checkpoint_path fw i)"
  by (rule write_to_file_other) (rule checkpoint_not_log)

lemma save_checkpoint_frame:
  "state_dict (save_checkpoint fw e st) = state_dict st
   \<and> modules (save_checkpoint fw e st) = modules st
   \<and> opt_state (save_checkpoint fw e st) = opt_state st
   \<and> opt_params (save_checkpoint fw e st) = opt_params st
   \<and> rng (save_checkpoint fw e st) = rng st
   \<and> forward_calls (save_checkpoint fw e st) = forward_calls st"
  by (simp add: save_checkpoint_def)

lemma save_checkpoint_files:
  "files (save_checkpoint fw e st) (checkpoint_path fw i)
   = (if i = e then Some (torch_save fw (state_dict st)) else files st (checkpoint_path fw i))"
  by (simp add: save_checkpoint_def checkpoint_path_inj)

lemma training_loop_frame:
  "training_loop fw acc st bs = Inr (r, st') \<Longrightarrow>
   files st' = files st \<and> opt_params st' = opt_params st"
proof (induction bs arbitrary: acc st)
  case Nil
  then show ?case by (cases acc) simp
next
  case (Cons b bs)
  obtain el aa where acc: "acc = (el, aa)" by (cases acc)
  obtain loss logits st1 where cm: "call_model fw st b = ((loss, logits), st1)"
    by (metis prod.exhaust)
  obtain p' os' where bs: "backward_step fw (opt_state st1) (state_dict st1) (modules st1) (rng st) b = (p', os')"
    by (metis prod.exhaust)
  from Cons.prems acc cm bs obtain a where
    "training_loop fw (el + loss, aa + a) (st1\<lparr>state_dict := p', opt_state := os'\<rparr>) bs = Inr (r, st')"
    by (auto split: sum.splits)
  from Cons.IH [OF this] call_model_frame [OF cm] show ?case by simp
qed

lemma validation_loop_frame:
  "validation_loop fw acc st bs = Inr (r, st') \<Longrightarrow>
   files st' = files st \<and> opt_params st' = opt_params st
   \<and> state_dict st' = state_dict st \<and> opt_state st' = opt_state st"
proof (induction bs arbitrary: acc st)
  case Nil
  then show ?case by (cases acc) simp
next
  case (Cons b bs)
  obtain aa el where acc: "acc = (aa, el)" by (cases acc)
  obtain loss logits st1 where cm: "call_model fw st b = ((loss, logits), st1)"
    by (metis prod.exhaust)
  from Cons.prems acc cm obtain a where
    "validation_loop fw (aa + a, el + loss) st1 bs = Inr (r, st')"
    by (auto split: sum.splits)
  from Cons.IH [OF this] call_model_frame [OF cm] show ?case by simp
qed

lemma training_step_frame:
  assumes "training_step fw dl st = Inr (r, st')"
  shows "files st' = files st \<and> opt_params st' = opt_params st"
proof -
  from assms obtain r' where "training_loop fw (0, 0) (model_train st) dl = Inr (r', st')"
    by (auto simp: training_step_def split: sum.splits prod.splits if_splits)
  from training_loop_frame [OF this] show ?thesis by (simp add: model_train_def)
qed

lemma validation_step_frame:
  assumes "validation_step fw dl st = Inr (r, st')"
  shows "files st' = files st \<and> opt_params st' = opt_params st
         \<and> state_dict st' = state_dict st \<and> opt_state st' = opt_state st"
proof -
  from assms obtain r' where "validation_loop fw (0, 0) (model_eval st) dl = Inr (r', st')"
    by (auto simp: validation_step_def split: sum.splits prod.splits if_splits)
  from validation_loop_frame [OF this] show ?thesis by (simp add: model_eval_def)
qed

text \<open>One epoch, taken apart.\<close>

lemma train_epoch_cases:
  assumes "train_epoch fw tdl vdl pretrained dropout vl st e = Inr (vl', st')"
  shows "\<exists>tr st1 va v st2.
           training_step fw tdl (save_checkpoint fw e st) = Inr (tr, st1)
           \<and> validation_step fw vdl st1 = Inr ((va, v), st2)
           \<and> vl' = vl @ [v]
           \<and> train_epoch fw tdl vdl pretrained dropout [] st e = Inr ([v], st')
           \<and> state_dict st' = state_dict st1 \<and> opt_state st' = opt_state st1
           \<and> opt_params st' = opt_params st
           \<and> (\<forall>i. files st' (checkpoint_path fw i)
                  = (if i = e then Some (torch_save fw (state_dict st))
                     else files st (checkpoint_path fw i)))"
proof -
  from assms obtain ta tl st1 where
    t: "training_step fw tdl (save_checkpoint fw e st) = Inr ((ta, tl), st1)"
    by (auto simp: train_epoch_def split: sum.splits prod.splits)
  from assms t obtain va v st2 where
    v: "validation_step fw vdl st1 = Inr ((va, v), st2)"
    by (auto simp: train_epoch_def split: sum.splits prod.splits)
  let ?folder = "evaluation_folder fw pretrained dropout"
  let ?st6 = "write_to_file fw ?folder ''val_loss.txt'' (float_str fw v)
               (write_to_file fw ?folder ''val_accuracy.txt'' (float_str fw va)
                 (write_to_file fw ?folder ''train_loss.txt'' (float_str fw tl)
                   (write_to_file fw ?folder ''train_accuracy.txt'' (float_str fw ta) st2)))"
  from assms t v have r: "vl' = vl @ [v]" "st' = ?st6"
    by (simp_all add: train_epoch_def Let_def)
  from t v have r0: "train_epoch fw tdl vdl pretrained dropout [] st e = Inr ([v], ?st6)"
    by (simp add: train_epoch_def Let_def)
  from training_step_frame [OF t] validation_step_frame [OF v]
  have f: "files st2 = files (save_checkpoint fw e st)" "state_dict st2 = state_dict st1"
    "opt_state st2 = opt_state st1" "opt_params st2 = opt_params st"
    by (simp_all add: save_checkpoint_frame)
  have "files ?st6 (checkpoint_path fw i) = files st2 (checkpoint_path fw i)" for i
    by (simp add: write_to_file_checkpoint)
  with f(1) have fi: "\<forall>i. files ?st6 (checkpoint_path fw i)
      = (if i = e then Some (torch_save fw (state_dict st)) else files st (checkpoint_path fw i))"
    by (simp add: save_checkpoint_files)
  from t v r r0 f fi show ?thesis
    by (simp add: write_to_file_frame)
qed

text \<open>
  The epoch loop over distinct epoch indices: the losses it appends, where each checkpoint
  comes from, and how the parameters pass from one epoch to the next.
\<close>

lemma train_epochs_trace:
  assumes "train_epochs fw tdl vdl pretrained dropout vl st es = Inr (vl', st')"
    and "distinct es"
  shows "length (epoch_trace fw tdl vdl pretrained dropout st es) = length es
         \<and> vl' = vl @ map recorded_val_loss (epoch_trace fw tdl vdl pretrained dropout st es)
         \<and> (\<forall>k<length es. files st' (checkpoint_path fw (es ! k))
               = Some (torch_save fw (entry_params
                    (epoch_trace fw tdl vdl pretrained dropout st es ! k))))
         \<and> (\<forall>i. i \<notin> set es \<longrightarrow> files st' (checkpoint_path fw i) = files st (checkpoint_path fw i))
         \<and> map entry_params (epoch_trace fw tdl vdl pretrained dropout st es)
             = butlast (state_dict st
                 # map trained_params (epoch_trace fw tdl vdl pretrained dropout st es))
         \<and> state_dict st' = last (state_dict st
                 # map trained_params (epoch_trace fw tdl vdl pretrained dropout st es))
         \<and> opt_params st' = opt_params st"
  using assms
proof (induction es arbitrary: vl st)
  case Nil
  then show ?case by simp
next
  case (Cons e es)
  from Cons.prems(1) obtain vl1 st1 where
    ep: "train_epoch fw tdl vdl pretrained dropout vl st e = Inr (vl1, st1)"
    and rest: "train_epochs fw tdl vdl pretrained dropout vl1 st1 es = Inr (vl', st')"
    by (auto split: sum.splits)
  from train_epoch_cases [OF ep] obtain tr sa va v sb where
    t: "training_step fw tdl (save_checkpoint fw e st) = Inr (tr, sa)"
    and va: "validation_step fw vdl sa = Inr ((va, v), sb)"
    and vl1: "vl1 = vl @ [v]"
    and ep0: "train_epoch fw tdl vdl pretrained dropout [] st e = Inr ([v], st1)"
    and sd: "state_dict st1 = state_dict sa" and op: "opt_params st1 = opt_params st"
    and fl: "\<forall>i. files st1 (checkpoint_path fw i)
                 = (if i = e then Some (torch_save fw (state_dict st))
                    else files st (checkpoint_path fw i))"
    by blast
  let ?rest = "epoch_trace fw tdl vdl pretrained dropout st1 es"
  let ?rec = "\<lparr>entry_params = state_dict st, trained_params = state_dict sa,
               recorded_val_loss = v\<rparr>"
  have tr: "epoch_trace fw tdl vdl pretrained dropout st (e # es) = ?rec # ?rest"
    using t va ep0 by simp
  from Cons.prems(2) have de: "distinct es" and ne: "e \<notin> set es" by simp_all
  from Cons.IH [OF rest de] have
    ih1: "length ?rest = length es"
    and ih2: "vl' = vl1 @ map recorded_val_loss ?rest"
    and ih3: "\<forall>k<length es. files st' (checkpoint_path fw (es ! k))
               = Some (torch_save fw (entry_params (?rest ! k)))"
    and ih4: "\<forall>i. i \<notin> set es \<longrightarrow> files st' (checkpoint_path fw i) = files st1 (checkpoint_path fw i)"
    and ih5: "map entry_params ?rest = butlast (state_dict st1 # map trained_params ?rest)"
    and ih6: "state_dict st' = last (state_dict st1 # map trained_params ?rest)"
    and ih7: "opt_params st' = opt_params st1"
    by simp_all
  have c1: "length (?rec # ?rest) = length (e # es)" using ih1 by simp
  have c2: "vl' = vl @ map recorded_val_loss (?rec # ?rest)" using ih2 vl1 by simp
  have c3: "\<forall>k<length (e # es). files st' (checkpoint_path fw ((e # es) ! k))
               = Some (torch_save fw (entry_params ((?rec # ?rest) ! k)))"
  proof (intro allI impI)
    fix k assume k: "k < length (e # es)"
    show "files st' (checkpoint_path fw ((e # es) ! k))
          = Some (torch_save fw (entry_params ((?rec # ?rest) ! k)))"
    proof (cases k)
      case 0
      with ih4 ne fl show ?thesis by simp
    next
      case (Suc k')
      with k ih3 show ?thesis by simp
    qed
  qed
  have c4: "\<forall>i. i \<notin> set (e # es) \<longrightarrow> files st' (checkpoint_path fw i) = files st (checkpoint_path fw i)"
    using ih4 fl by simp
  have c5: "map entry_params (?rec # ?rest)
            = butlast (state_dict st # map trained_params (?rec # ?rest))"
    using ih5 sd by simp
  have c6: "state_dict st' = last (state_dict st # map trained_params (?rec # ?rest))"
    using ih6 sd by simp
  have c7: "opt_params st' = opt_params st" using ih7 op by simp
  from c1 c2 c3 c4 c5 c6 c7 show ?case unfolding tr by blast
qed

lemma train_epoch_returns:
  assumes "wf_framework fw" and "list_all wf_batch tdl" and "tdl \<noteq> []"
    and "list_all wf_batch vdl" and "vdl \<noteq> []"
  shows "\<exists>vl' st'. train_epoch fw tdl vdl pretrained dropout vl st e = Inr (vl', st')"
proof -
  from training_step_returns [OF assms(1,2,3)] obtain ta tl st1 where
    t: "training_step fw tdl (save_checkpoint fw e st) = Inr ((ta, tl), st1)"
    by (metis prod.exhaust)
  from validation_step_returns [OF assms(1,4,5)] obtain va v st2 where
    v: "validation_step fw vdl st1 = Inr ((va, v), st2)" by (metis prod.exhaust)
  from t v show ?thesis by (simp add: train_epoch_def Let_def)
qed

lemma train_epochs_returns:
  assumes "wf_framework fw" and "list_all wf_batch tdl" and "tdl \<noteq> []"
    and "list_all wf_batch vdl" and "vdl \<noteq> []"
  shows "\<exists>vl' st'. train_epochs fw tdl vdl pretrained dropout vl st es = Inr (vl', st')"
proof (induction es arbitrary: vl st)
  case Nil
  then show ?case by simp
next
  case (Cons e es)
  from train_epoch_returns [OF assms] obtain vl1 st1 where
    "train_epoch fw tdl vdl pretrained dropout vl st e = Inr (vl1, st1)" by blast
  with Cons.IH [of vl1 st1] show ?case by simp
qed

text \<open>What follows the loop, taken apart.\<close>

lemma restore_best_cases:
  assumes "restore_best fw pretrained dropout vl st = Inr st'"
  shows "\<exists>j bytes. np_argmin vl = Inr j \<and> files st (checkpoint_path fw j) = Some bytes
           \<and> torch_load fw bytes = Some (state_dict st')
           \<and> opt_state st' = opt_state st
           \<and> opt_params st' = Some (adamw fw (state_dict st'))
           \<and> (\<forall>i. files st' (checkpoint_path fw i) = files st (checkpoint_path fw i))"
proof -
  from assms obtain j bytes p where
    j: "np_argmin vl = Inr j" and b: "files st (checkpoint_path fw j) = Some bytes"
    and p: "torch_load fw bytes = Some p"
    by (auto simp: restore_best_def split: sum.splits option.splits)
  with assms show ?thesis
    by (auto simp: restore_best_def Let_def write_to_file_frame write_to_file_checkpoint)
qed

lemma restore_best_returns:
  assumes "np_argmin vl = Inr j" and "files st (checkpoint_path fw j) = Some bytes"
    and "torch_load fw bytes = Some p"
  shows "\<exists>st'. restore_best fw pretrained dropout vl st = Inr st'"
  using assms by (simp add: restore_best_def Let_def)

lemma train_cases:
  assumes "train fw tdl vdl epochs pretrained dropout st = Inr st'"
  shows "\<exists>vl st1 j bytes.
           train_epochs fw tdl vdl pretrained dropout [] st [0..<nat epochs] = Inr (vl, st1)
           \<and> np_argmin vl = Inr j \<and> files st1 (checkpoint_path fw j) = Some bytes
           \<and> torch_load fw bytes = Some (state_dict st')
           \<and> opt_state st' = opt_state st1
           \<and> opt_params st' = Some (adamw fw (state_dict st'))
           \<and> (\<forall>i. files st' (checkpoint_path fw i) = files st1 (checkpoint_path fw i))"
proof -
  from assms obtain vl st1 where
    ep: "train_epochs fw tdl vdl pretrained dropout [] st [0..<nat epochs] = Inr (vl, st1)"
    and rb: "restore_best fw pretrained dropout vl st1 = Inr st'"
    by (auto simp: train_def split: sum.splits)
  from restore_best_cases [OF rb] ep show ?thesis by blast
qed

lemma train_returns:
  assumes "1 \<le> epochs" and "wf_framework fw" and "checkpoints_load fw"
    and "list_all wf_batch tdl" and "tdl \<noteq> []" and "list_all wf_batch vdl" and "vdl \<noteq> []"
  shows "\<exists>st'. train fw tdl vdl epochs pretrained dropout st = Inr st'"
proof -
  let ?es = "[0..<nat epochs]"
  from train_epochs_returns [OF assms(2,4,5,6,7)] obtain vl st1 where
    ep: "train_epochs fw tdl vdl pretrained dropout [] st ?es = Inr (vl, st1)" by blast
  let ?trace = "epoch_trace fw tdl vdl pretrained dropout st ?es"
  from train_epochs_trace [OF ep] have
    len: "length ?trace = length ?es" and vl: "vl = map recorded_val_loss ?trace"
    and fl: "\<forall>k<length ?es. files st1 (checkpoint_path fw (?es ! k))
               = Some (torch_save fw (entry_params (?trace ! k)))"
    by simp_all
  from assms(1) len vl have "vl \<noteq> []" by auto
  from np_argmin_first [OF this] obtain j where j: "np_argmin vl = Inr j" "j < length vl"
    by blast
  from j(2) vl len have jl: "j < length ?es" by simp
  with fl have a: "files st1 (checkpoint_path fw j)
                = Some (torch_save fw (entry_params (?trace ! j)))" by simp
  from assms(3) have b:
    "torch_load fw (torch_save fw (entry_params (?trace ! j))) = Some (entry_params (?trace ! j))"
    by (simp add: checkpoints_load_def)
  from restore_best_returns [OF j(1) a b, of pretrained dropout]
  obtain st' where "restore_best fw pretrained dropout vl st1 = Inr st'" by blast
  with ep show ?thesis by (simp add: train_def)
qed

section \<open>The checkpoint train restores\<close>

text \<open>
  C1. For \<open>epochs \<ge> 1\<close>: whenever \<open>train\<close> returns, the parameters of the model are
  what the checkpoint file of epoch \<open>j\<close> loads to, where \<open>j\<close> is the first index at which
  the list of the recorded validation losses (one per epoch) takes its minimum, so the
  earliest epoch among those sharing it; and \<open>train\<close> does return when both data
  loaders are non-empty and well formed and a saved checkpoint loads back.
\<close>

theorem train_restores_first_minimum:
  assumes "1 \<le> epochs"
  shows "(\<forall>st'. train fw tdl vdl epochs pretrained dropout st = Inr st' \<longrightarrow>
            (\<exists>vl st1 j bytes.
               train_epochs fw tdl vdl pretrained dropout [] st [0..<nat epochs] = Inr (vl, st1)
               \<and> length vl = nat epochs \<and> j < nat epochs
               \<and> (\<forall>k<nat epochs. vl ! j \<le> vl ! k) \<and> (\<forall>k<j. vl ! j < vl ! k)
               \<and> files st' (checkpoint_path fw j) = Some bytes
               \<and> torch_load fw bytes = Some (state_dict st')))
         \<and> (wf_framework fw \<and> checkpoints_load fw \<and> tdl \<noteq> [] \<and> vdl \<noteq> []
              \<and> list_all wf_batch tdl \<and> list_all wf_batch vdl
             \<longrightarrow> (\<exists>st'. train fw tdl vdl epochs pretrained dropout st = Inr st'))"
proof (intro conjI allI impI)
  fix st' assume tr: "train fw tdl vdl epochs pretrained dropout st = Inr st'"
  from train_cases [OF tr] obtain vl st1 j bytes where
    ep: "train_epochs fw tdl vdl pretrained dropout [] st [0..<nat epochs] = Inr (vl, st1)"
    and j: "np_argmin vl = Inr j" and b: "files st1 (checkpoint_path fw j) = Some bytes"
    and l: "torch_load fw bytes = Some (state_dict st')"
    and f: "\<forall>i. files st' (checkpoint_path fw i) = files st1 (checkpoint_path fw i)"
    by blast
  from train_epochs_trace [OF ep] have len: "length vl = nat epochs" by simp
  with assms have "vl \<noteq> []" by auto
  from np_argmin_first [OF this] j len have
    "j < nat epochs" "\<forall>k<nat epochs. vl ! j \<le> vl ! k" "\<forall>k<j. vl ! j < vl ! k"
    by auto
  with ep len b l f
  show "\<exists>vl st1 j bytes.
          train_epochs fw tdl vdl pretrained dropout [] st [0..<nat epochs] = Inr (vl, st1)
          \<and> length vl = nat epochs \<and> j < nat epochs
          \<and> (\<forall>k<nat epochs. vl ! j \<le> vl ! k) \<and> (\<forall>k<j. vl ! j < vl ! k)
          \<and> files st' (checkpoint_path fw j) = Some bytes
          \<and> torch_load fw bytes = Some (state_dict st')"
    by auto
next
  assume "wf_framework fw \<and> checkpoints_load fw \<and> tdl \<noteq> [] \<and> vdl \<noteq> []
          \<and> list_all wf_batch tdl \<and> list_all wf_batch vdl"
  with assms show "\<exists>st'. train fw tdl vdl epochs pretrained dropout st = Inr st'"
    using train_returns by blast
qed

text \<open>What train saves, and the files it leaves alone.\<close>

lemma call_model_saves:
  "call_model fw st b = (out, st1) \<Longrightarrow> torch_saves st1 = torch_saves st"
  by (auto simp: call_model_def split: prod.splits)

lemma training_loop_saves:
  "training_loop fw acc st bs = Inr (r, st') \<Longrightarrow> torch_saves st' = torch_saves st"
proof (induction bs arbitrary: acc st)
  case Nil
  then show ?case by (cases acc) simp
next
  case (Cons b bs)
  obtain el aa where acc: "acc = (el, aa)" by (cases acc)
  obtain loss logits st1 where cm: "call_model fw st b = ((loss, logits), st1)"
    by (metis prod.exhaust)
  obtain p' os' where bs: "backward_step fw (opt_state st1) (state_dict st1) (modules st1) (rng st) b = (p', os')"
    by (metis prod.exhaust)
  from Cons.prems acc cm bs obtain a where
    "training_loop fw (el + loss, aa + a) (st1\<lparr>state_dict := p', opt_state := os'\<rparr>) bs = Inr (r, st')"
    by (auto split: sum.splits)
  from Cons.IH [OF this] call_model_saves [OF cm] show ?case by simp
qed

lemma validation_loop_saves:
  "validation_loop fw acc st bs = Inr (r, st') \<Longrightarrow> torch_saves st' = torch_saves st"
proof (induction bs arbitrary: acc st)
  case Nil
  then show ?case by (cases acc) simp
next
  case (Cons b bs)
  obtain aa el where acc: "acc = (aa, el)" by (cases acc)
  obtain loss logits st1 where cm: "call_model fw st b = ((loss, logits), st1)"
    by (metis prod.exhaust)
  from Cons.prems acc cm obtain a where
    "validation_loop fw (aa + a, el + loss) st1 bs = Inr (r, st')"
    by (auto split: sum.splits)
  from Cons.IH [OF this] call_model_saves [OF cm] show ?case by simp
qed

lemma training_step_saves:
  assumes "training_step fw dl st = Inr (r, st')"
  shows "torch_saves st' = torch_saves st"
proof -
  from assms obtain r' where "training_loop fw (0, 0) (model_train st) dl = Inr (r', st')"
    by (auto simp: training_step_def split: sum.splits prod.splits if_splits)
  from training_loop_saves [OF this] show ?thesis by (simp add: model_train_def)
qed

lemma validation_step_saves:
  assumes "validation_step fw dl st = Inr (r, st')"
  shows "torch_saves st' = torch_saves st"
proof -
  from assms obtain r' where "validation_loop fw (0, 0) (model_eval st) dl = Inr (r', st')"
    by (auto simp: validation_step_def split: sum.splits prod.splits if_splits)
  from validation_loop_saves [OF this] show ?thesis by (simp add: model_eval_def)
qed

lemma write_to_file_saves:
  "torch_saves (write_to_file fw folder file txt st) = torch_saves st"
  by (simp add: write_to_file_def Let_def)

lemma write_to_log_other:
  assumes "path \<notin> set (log_paths fw pretrained dropout)"
    and "file \<in> {''train_accuracy.txt'', ''train_loss.txt'', ''val_accuracy.txt'', ''val_loss.txt''}"
  shows "files (write_to_file fw (evaluation_folder fw pretrained dropout) file txt st) path
         = files st path"
proof (rule write_to_file_other)
  from assms(2) have "evaluation_folder fw pretrained dropout @ sep fw @ file
                      \<in> set (log_paths fw pretrained dropout)"
    by (auto simp: log_paths_def)
  with assms(1) show "path \<noteq> evaluation_folder fw pretrained dropout @ sep fw @ file" by auto
qed

lemma checkpoint_not_in_logs: "checkpoint_path fw i \<notin> set (log_paths fw pretrained dropout)"
  using checkpoint_not_log [of fw i pretrained dropout] by (auto simp: log_paths_def)

lemma train_epoch_frame:
  assumes "train_epoch fw tdl vdl pretrained dropout vl st e = Inr (vl', st')"
  shows "torch_saves st' = torch_saves st @ [(checkpoint_path fw e, state_dict st)]
         \<and> (\<forall>path. path \<notin> set (log_paths fw pretrained dropout)
               \<longrightarrow> path \<noteq> checkpoint_path fw e \<longrightarrow> files st' path = files st path)"
proof -
  from assms obtain ta tl st1 where
    t: "training_step fw tdl (save_checkpoint fw e st) = Inr ((ta, tl), st1)"
    by (auto simp: train_epoch_def split: sum.splits prod.splits)
  from assms t obtain va v st2 where
    v: "validation_step fw vdl st1 = Inr ((va, v), st2)"
    by (auto simp: train_epoch_def split: sum.splits prod.splits)
  let ?folder = "evaluation_folder fw pretrained dropout"
  let ?st6 = "write_to_file fw ?folder ''val_loss.txt'' (float_str fw v)
               (write_to_file fw ?folder ''val_accuracy.txt'' (float_str fw va)
                 (write_to_file fw ?folder ''train_loss.txt'' (float_str fw tl)
                   (write_to_file fw ?folder ''train_accuracy.txt'' (float_str fw ta) st2)))"
  from assms t v have r: "st' = ?st6" by (simp add: train_epoch_def Let_def)
  from training_step_saves [OF t] validation_step_saves [OF v]
  have s: "torch_saves st2 = torch_saves st @ [(checkpoint_path fw e, state_dict st)]"
    by (simp add: save_checkpoint_def)
  from training_step_frame [OF t] validation_step_frame [OF v]
  have f: "files st2 = files (save_checkpoint fw e st)" by simp
  have "files ?st6 path = files st path"
    if "path \<notin> set (log_paths fw pretrained dropout)" "path \<noteq> checkpoint_path fw e" for path
    using that f by (simp add: write_to_log_other save_checkpoint_def)
  with r s show ?thesis by (simp add: write_to_file_saves)
qed

lemma train_epochs_frame:
  assumes "train_epochs fw tdl vdl pretrained dropout vl st es = Inr (vl', st')"
  shows "torch_saves st'
         = torch_saves st @ zip (map (checkpoint_path fw) es)
             (map entry_params (epoch_trace fw tdl vdl pretrained dropout st es))
         \<and> (\<forall>path. path \<notin> set (log_paths fw pretrained dropout)
               \<longrightarrow> path \<notin> checkpoint_path fw ` set es \<longrightarrow> files st' path = files st path)"
  using assms
proof (induction es arbitrary: vl st)
  case Nil
  then show ?case by simp
next
  case (Cons e es)
  from Cons.prems(1) obtain vl1 st1 where
    ep: "train_epoch fw tdl vdl pretrained dropout vl st e = Inr (vl1, st1)"
    and rest: "train_epochs fw tdl vdl pretrained dropout vl1 st1 es = Inr (vl', st')"
    by (auto split: sum.splits)
  from train_epoch_cases [OF ep] obtain tr sa va v sb where
    t: "training_step fw tdl (save_checkpoint fw e st) = Inr (tr, sa)"
    and va: "validation_step fw vdl sa = Inr ((va, v), sb)"
    and ep0: "train_epoch fw tdl vdl pretrained dropout [] st e = Inr ([v], st1)"
    by blast
  let ?rest = "epoch_trace fw tdl vdl pretrained dropout st1 es"
  let ?rec = "\<lparr>entry_params = state_dict st, trained_params = state_dict sa,
               recorded_val_loss = v\<rparr>"
  have tr: "epoch_trace fw tdl vdl pretrained dropout st (e # es) = ?rec # ?rest"
    using t va ep0 by simp
  from train_epoch_frame [OF ep] have
    s1: "torch_saves st1 = torch_saves st @ [(checkpoint_path fw e, state_dict st)]"
    and f1: "\<forall>path. path \<notin> set (log_paths fw pretrained dropout)
               \<longrightarrow> path \<noteq> checkpoint_path fw e \<longrightarrow> files st1 path = files st path"
    by simp_all
  from Cons.IH [OF rest] have
    s2: "torch_saves st' = torch_saves st1 @ zip (map (checkpoint_path fw) es) (map entry_params ?rest)"
    and f2: "\<forall>path. path \<notin> set (log_paths fw pretrained dropout)
               \<longrightarrow> path \<notin> checkpoint_path fw ` set es \<longrightarrow> files st' path = files st1 path"
    by simp_all
  have c1: "torch_saves st' = torch_saves st @ zip (map (checkpoint_path fw) (e # es))
              (map entry_params (?rec # ?rest))"
    using s1 s2 by simp
  have c2: "\<forall>path. path \<notin> set (log_paths fw pretrained dropout)
               \<longrightarrow> path \<notin> checkpoint_path fw ` set (e # es) \<longrightarrow> files st' path = files st path"
    using f1 f2 by auto
  from c1 c2 show ?case unfolding tr by blast
qed

lemma restore_best_frame:
  assumes "restore_best fw pretrained dropout vl st = Inr st'"
  shows "torch_saves st' = torch_saves st
         \<and> (\<forall>path. path \<notin> set (log_paths fw pretrained dropout)
               \<longrightarrow> files st' path = files st path)"
proof -
  from assms obtain j bytes p where
    j: "np_argmin vl = Inr j" and b: "files st (checkpoint_path fw j) = Some bytes"
    and p: "torch_load fw bytes = Some p"
    by (auto simp: restore_best_def split: sum.splits option.splits)
  with assms show ?thesis
    by (auto simp: restore_best_def Let_def write_to_file_saves write_to_log_other)
qed

lemma train_frame:
  assumes "train fw tdl vdl epochs pretrained dropout st = Inr st'"
  shows "torch_saves st'
         = torch_saves st @ zip (map (checkpoint_path fw) [0..<nat epochs])
             (map entry_params (epoch_trace fw tdl vdl pretrained dropout st [0..<nat epochs]))
         \<and> (\<forall>path. path \<notin> set (log_paths fw pretrained dropout)
               \<longrightarrow> path \<notin> checkpoint_path fw ` {..<nat epochs} \<longrightarrow> files st' path = files st path)"
proof -
  from assms obtain vl st1 where
    ep: "train_epochs fw tdl vdl pretrained dropout [] st [0..<nat epochs] = Inr (vl, st1)"
    and rb: "restore_best fw pretrained dropout vl st1 = Inr st'"
    by (auto simp: train_def split: sum.splits)
  from train_epochs_frame [OF ep] restore_best_frame [OF rb] show ?thesis
    by (simp add: lessThan_atLeast0)
qed

section \<open>What the checkpoints hold\<close>

text \<open>
  C3. Whenever \<open>train\<close> returns: the checkpoint file of every epoch \<open>i\<close> holds the
  parameters the model had when epoch \<open>i\<close> started, before its training pass; these are
  the initial parameters for epoch 0 and, for a later epoch, the parameters the epoch
  before ended its training pass with; the loss recorded for epoch \<open>i\<close> was computed by
  the validation pass on the parameters after the training pass of epoch \<open>i\<close>; the
  parameters restored are those entering the epoch of the first minimal loss. The calls
  of \<open>torch.save\<close> that \<open>train\<close> makes are exactly these, one per epoch and each of
  the parameters entering it, and no file but those checkpoints and the four metric logs
  changes: the parameters after the training pass of the last epoch are saved nowhere.
\<close>

theorem checkpoints_hold_entry_parameters:
  assumes "train fw tdl vdl epochs pretrained dropout st = Inr st'"
  shows "\<exists>vl st1 j.
           train_epochs fw tdl vdl pretrained dropout [] st [0..<nat epochs] = Inr (vl, st1)
           \<and> length (epoch_trace fw tdl vdl pretrained dropout st [0..<nat epochs]) = nat epochs
           \<and> (\<forall>i<nat epochs.
                 files st' (checkpoint_path fw i)
                   = Some (torch_save fw (entry_params
                        (epoch_trace fw tdl vdl pretrained dropout st [0..<nat epochs] ! i)))
                 \<and> vl ! i = recorded_val_loss
                        (epoch_trace fw tdl vdl pretrained dropout st [0..<nat epochs] ! i))
           \<and> map entry_params (epoch_trace fw tdl vdl pretrained dropout st [0..<nat epochs])
               = butlast (state_dict st # map trained_params
                    (epoch_trace fw tdl vdl pretrained dropout st [0..<nat epochs]))
           \<and> state_dict st1 = last (state_dict st # map trained_params
                    (epoch_trace fw tdl vdl pretrained dropout st [0..<nat epochs]))
           \<and> np_argmin vl = Inr j \<and> j < nat epochs
           \<and> torch_load fw (torch_save fw (entry_params
                 (epoch_trace fw tdl vdl pretrained dropout st [0..<nat epochs] ! j)))
               = Some (state_dict st')
           \<and> torch_saves st'
               = torch_saves st @ zip (map (checkpoint_path fw) [0..<nat epochs])
                   (map entry_params
                      (epoch_trace fw tdl vdl pretrained dropout st [0..<nat epochs]))
           \<and> (\<forall>path. path \<notin> set (log_paths fw pretrained dropout)
                 \<longrightarrow> path \<notin> checkpoint_path fw ` {..<nat epochs}
                 \<longrightarrow> files st' path = files st path)"
proof -
  let ?es = "[0..<nat epochs]"
  let ?trace = "epoch_trace fw tdl vdl pretrained dropout st ?es"
  from train_cases [OF assms] obtain vl st1 j bytes where
    ep: "train_epochs fw tdl vdl pretrained dropout [] st ?es = Inr (vl, st1)"
    and j: "np_argmin vl = Inr j" and b: "files st1 (checkpoint_path fw j) = Some bytes"
    and l: "torch_load fw bytes = Some (state_dict st')"
    and f: "\<forall>i. files st' (checkpoint_path fw i) = files st1 (checkpoint_path fw i)"
    by blast
  from train_epochs_trace [OF ep] have
    len: "length ?trace = nat epochs" and vl: "vl = map recorded_val_loss ?trace"
    and fl: "\<forall>k<nat epochs. files st1 (checkpoint_path fw k)
               = Some (torch_save fw (entry_params (?trace ! k)))"
    and en: "map entry_params ?trace = butlast (state_dict st # map trained_params ?trace)"
    and la: "state_dict st1 = last (state_dict st # map trained_params ?trace)"
    by simp_all
  have "vl \<noteq> []" using j by (auto simp: np_argmin_def)
  from np_argmin_first [OF this] j vl len have jl: "j < nat epochs" by auto
  from fl jl b l have lo: "torch_load fw (torch_save fw (entry_params (?trace ! j)))
                           = Some (state_dict st')" by simp
  have each: "\<forall>i<nat epochs. files st' (checkpoint_path fw i)
                 = Some (torch_save fw (entry_params (?trace ! i)))
               \<and> vl ! i = recorded_val_loss (?trace ! i)"
    using fl f vl len by simp
  from train_frame [OF assms] have
    sv: "torch_saves st' = torch_saves st @ zip (map (checkpoint_path fw) ?es)
           (map entry_params ?trace)"
    and fr: "\<forall>path. path \<notin> set (log_paths fw pretrained dropout)
               \<longrightarrow> path \<notin> checkpoint_path fw ` {..<nat epochs}
               \<longrightarrow> files st' path = files st path"
    by simp_all
  from ep len each en la j jl lo sv fr show ?thesis by blast
qed

section \<open>Three epochs on the concrete framework\<close>

lemma write_to_file_rng: "rng (write_to_file fw folder file txt st) = rng st"
  by (simp add: write_to_file_def Let_def)

lemmas demo_run_defs = small_loader_def demo_batch_def model_eval_def model_train_def
  call_model_def demo_forward_def dropout_active_def demo_loss_def accuracy_score_def
  argmax_row_def training_step_def validation_step_def train_epoch_def
  write_to_file_frame write_to_file_rng save_checkpoint_frame Let_def
  demo_state_def demo_framework_def

lemma upt_0_3: "[0..<3] = [0, 1, 2]"
  by (simp add: numeral_3_eq_3)

lemma upt_0_1: "[0..<1] = [0]"
  by simp

lemma demo_epochs_3:
  "(case train_epochs demo_framework small_loader small_loader True 0 [] demo_state [0..<3] of
      Inl e \<Rightarrow> False
    | Inr (vl, s) \<Rightarrow> vl = [1, 1 / 4, 1 / 4] \<and> state_dict s = 3 \<and> opt_state s = 3)"
  by (simp add: upt_0_3 demo_run_defs)

lemma demo_trace_3:
  "map (\<lambda>r. (entry_params r, trained_params r, recorded_val_loss r))
     (epoch_trace demo_framework small_loader small_loader True 0 demo_state [0..<3])
   = [(0, 1, 1), (1, 2, 1 / 4), (2, 3, 1 / 4)]"
  by (simp add: upt_0_3 demo_run_defs)

lemma demo_epochs_1:
  "(case train_epochs demo_framework small_loader small_loader True 0 [] demo_state [0..<1] of
      Inl e \<Rightarrow> False
    | Inr (vl, s) \<Rightarrow> vl = [1] \<and> state_dict s = 1 \<and> opt_state s = 1)"
  by (simp add: upt_0_3 demo_run_defs)


lemma demo_checkpoints_load: "checkpoints_load demo_framework"
  by (simp add: checkpoints_load_def demo_framework_def)

lemma small_loader_wf: "list_all wf_batch small_loader" "small_loader \<noteq> []"
  by (simp_all add: small_loader_def demo_batch_def wf_batch_def class_index_def)

lemma demo_trace_3_fields:
  "map entry_params
     (epoch_trace demo_framework small_loader small_loader True 0 demo_state [0..<3]) = [0, 1, 2]"
  "map trained_params
     (epoch_trace demo_framework small_loader small_loader True 0 demo_state [0..<3]) = [1, 2, 3]"
  "map recorded_val_loss
     (epoch_trace demo_framework small_loader small_loader True 0 demo_state [0..<3])
   = [1, 1 / 4, 1 / 4]"
proof -
  let ?T = "epoch_trace demo_framework small_loader small_loader True 0 demo_state [0..<3]"
  let ?f = "\<lambda>r. (entry_params r, trained_params r, recorded_val_loss r)"
  have "map entry_params ?T = map fst (map ?f ?T)" by simp
  then show "map entry_params ?T = [0, 1, 2]" by (simp only: demo_trace_3) simp
  have "map trained_params ?T = map (fst \<circ> snd) (map ?f ?T)" by simp
  then show "map trained_params ?T = [1, 2, 3]" by (simp only: demo_trace_3) simp
  have "map recorded_val_loss ?T = map (snd \<circ> snd) (map ?f ?T)" by simp
  then show "map recorded_val_loss ?T = [1, 1 / 4, 1 / 4]" by (simp only: demo_trace_3) simp
qed

theorem train_restores_first_minimum_witness:
  "\<not> isl (train demo_framework small_loader small_loader 3 True 0 demo_state)
   \<and> fst (projr (train_epochs demo_framework small_loader small_loader True 0 [] demo_state
                    [0..<3])) = [1, 1 / 4, 1 / 4]
   \<and> files (projr (train demo_framework small_loader small_loader 3 True 0 demo_state))
        (checkpoint_path demo_framework 1) \<noteq> None
   \<and> torch_load demo_framework
        (the (files (projr (train demo_framework small_loader small_loader 3 True 0 demo_state))
           (checkpoint_path demo_framework 1)))
       = Some (state_dict (projr (train demo_framework small_loader small_loader 3 True 0
                                    demo_state)))"
proof -
  let ?T = "train demo_framework small_loader small_loader 3 True 0 demo_state"
  let ?E = "train_epochs demo_framework small_loader small_loader True 0 [] demo_state [0..<3]"
  have e: "(1::int) \<le> 3" by simp
  note inst = train_restores_first_minimum [OF e, of demo_framework small_loader small_loader
      True 0 demo_state]
  from inst demo_wf demo_checkpoints_load small_loader_wf
  obtain st' where tr: "?T = Inr st'" by auto
  from inst tr obtain vl st1 j bytes where
    ep: "?E = Inr (vl, st1)" and jl: "j < 3"
    and jmin: "\<forall>k<3. vl ! j \<le> vl ! k" and jfirst: "\<forall>k<j. vl ! j < vl ! k"
    and b: "files st' (checkpoint_path demo_framework j) = Some bytes"
    and l: "torch_load demo_framework bytes = Some (state_dict st')"
    by auto
  from demo_epochs_3 ep have vl: "vl = [1, 1 / 4, 1 / 4]" by simp
  have "j = 1"
  proof -
    from jl consider "j = 0" | "j = 1" | "j = 2" by linarith
    then show ?thesis
    proof cases
      case 1
      with jmin vl have "(1::real) \<le> 1 / 4" by (auto dest: spec [where x = 1])
      then show ?thesis by simp
    next
      case 2
      then show ?thesis .
    next
      case 3
      with jfirst vl have "(1 / 4 :: real) < 1 / 4" by (auto dest: spec [where x = 1])
      then show ?thesis by simp
    qed
  qed
  with tr ep vl b l show ?thesis by simp
qed

theorem checkpoints_hold_entry_parameters_witness:
  "\<not> isl (train demo_framework small_loader small_loader 3 True 0 demo_state)
   \<and> map entry_params
       (epoch_trace demo_framework small_loader small_loader True 0 demo_state [0..<3])
       = [0, 1, 2]
   \<and> map trained_params
       (epoch_trace demo_framework small_loader small_loader True 0 demo_state [0..<3])
       = [1, 2, 3]
   \<and> map recorded_val_loss
       (epoch_trace demo_framework small_loader small_loader True 0 demo_state [0..<3])
       = [1, 1 / 4, 1 / 4]
   \<and> map (\<lambda>i. files (projr (train demo_framework small_loader small_loader 3 True 0 demo_state))
                 (checkpoint_path demo_framework i)) [0, 1, 2]
       = [Some (torch_save demo_framework 0), Some (torch_save demo_framework 1),
          Some (torch_save demo_framework 2)]
   \<and> state_dict (projr (train demo_framework small_loader small_loader 3 True 0 demo_state)) = 1
   \<and> torch_saves (projr (train demo_framework small_loader small_loader 3 True 0 demo_state))
       = [(checkpoint_path demo_framework 0, 0), (checkpoint_path demo_framework 1, 1),
          (checkpoint_path demo_framework 2, 2)]
   \<and> files (projr (train demo_framework small_loader small_loader 3 True 0 demo_state))
        (checkpoint_path demo_framework 3) = None"
proof -
  let ?T = "train demo_framework small_loader small_loader 3 True 0 demo_state"
  let ?E = "train_epochs demo_framework small_loader small_loader True 0 [] demo_state [0..<3]"
  let ?R = "epoch_trace demo_framework small_loader small_loader True 0 demo_state [0..<3]"
  have e: "(1::int) \<le> 3" by simp
  from train_returns [OF e demo_wf demo_checkpoints_load small_loader_wf small_loader_wf]
  obtain st' where tr: "?T = Inr st'" by blast
  from checkpoints_hold_entry_parameters [OF tr] obtain vl st1 j where
    ep: "?E = Inr (vl, st1)"
    and fl: "\<forall>i<3. files st' (checkpoint_path demo_framework i)
                = Some (torch_save demo_framework (entry_params (?R ! i)))"
    and j: "np_argmin vl = Inr j"
    and lo: "torch_load demo_framework (torch_save demo_framework (entry_params (?R ! j)))
             = Some (state_dict st')"
    and sv: "torch_saves st' = torch_saves demo_state
               @ zip (map (checkpoint_path demo_framework) [0..<3]) (map entry_params ?R)"
    and fr: "\<forall>path. path \<notin> set (log_paths demo_framework True 0)
               \<longrightarrow> path \<notin> checkpoint_path demo_framework ` {..<3}
               \<longrightarrow> files st' path = files demo_state path"
    by auto
  from demo_epochs_3 ep have vl: "vl = [1, 1 / 4, 1 / 4]" by simp
  with j have j1: "j = 1" by (simp add: np_argmin_def)
  have len: "length ?R = 3" using demo_trace_3_fields(1) by (metis length_map length_Cons list.size(3) numeral_3_eq_3)
  have en: "entry_params (?R ! i) = [0, 1, 2] ! i" if "i < 3" for i
    using that len demo_trace_3_fields(1) by (metis nth_map)
  from en [of 0] en [of 1] en [of 2] have ens:
    "entry_params (?R ! 0) = 0" "entry_params (?R ! 1) = 1" "entry_params (?R ! 2) = 2"
    by simp_all
  from fl ens have f: "files st' (checkpoint_path demo_framework 0) = Some (torch_save demo_framework 0)"
    "files st' (checkpoint_path demo_framework 1) = Some (torch_save demo_framework 1)"
    "files st' (checkpoint_path demo_framework 2) = Some (torch_save demo_framework 2)"
    by (auto simp del: One_nat_def)
  from lo j1 ens have sd: "state_dict st' = 1" by (simp add: demo_framework_def)
  have ts: "torch_saves demo_state = []" by (simp add: demo_state_def)
  from sv have "torch_saves st'
      = zip (map (checkpoint_path demo_framework) [0..<3]) [0, 1, 2]"
    by (simp only: demo_trace_3_fields(1) ts append_Nil)
  then have svs: "torch_saves st'
      = [(checkpoint_path demo_framework 0, 0), (checkpoint_path demo_framework 1, 1),
         (checkpoint_path demo_framework 2, 2)]"
    by (simp only: upt_0_3 list.map zip_Cons_Cons zip_Nil)
  have "checkpoint_path demo_framework 3 \<notin> checkpoint_path demo_framework ` {..<3}"
    by (auto simp: checkpoint_path_inj)
  moreover have "files demo_state (checkpoint_path demo_framework 3) = None"
    by (simp add: demo_state_def)
  ultimately have f3: "files st' (checkpoint_path demo_framework 3) = None"
    using fr checkpoint_not_in_logs [of demo_framework 3 True 0] by simp
  from tr f sd svs f3 demo_trace_3_fields show ?thesis by (simp del: One_nat_def)
qed

section \<open>The optimizer after train\<close>

text \<open>
  C2. One epoch over one batch on the concrete framework, whose optimizer state counts the
  steps made and is 0 for a new optimizer: when \<open>train\<close> returns, the state of the
  optimizer that was passed in is still 1, the step of the training epoch; the new
  optimizer state, 0, is only what the attribute \<open>params\<close> holds.
\<close>

theorem train_keeps_optimizer_state:
  "\<not> isl (train demo_framework small_loader small_loader 1 True 0 demo_state)
   \<and> opt_state demo_state = 0
   \<and> opt_state (projr (train demo_framework small_loader small_loader 1 True 0 demo_state)) = 1
   \<and> adamw demo_framework
        (state_dict (projr (train demo_framework small_loader small_loader 1 True 0 demo_state)))
       = 0
   \<and> opt_params (projr (train demo_framework small_loader small_loader 1 True 0 demo_state))
       = Some 0"
proof -
  let ?T = "train demo_framework small_loader small_loader 1 True 0 demo_state"
  have e: "(1::int) \<le> 1" by simp
  from train_returns [OF e demo_wf demo_checkpoints_load small_loader_wf small_loader_wf]
  obtain st' where tr: "?T = Inr st'" by blast
  from train_cases [OF tr] obtain vl st1 where
    ep: "train_epochs demo_framework small_loader small_loader True 0 [] demo_state [0..<nat 1]
         = Inr (vl, st1)"
    and os: "opt_state st' = opt_state st1"
    and op: "opt_params st' = Some (adamw demo_framework (state_dict st'))"
    by blast
  from demo_epochs_1 ep have "opt_state st1 = 1" by simp
  with tr os op show ?thesis by (simp add: demo_framework_def demo_state_def)
qed

section \<open>The MCD path of evaluate\<close>








end
